theory Spec2Isabelle
  imports Complex_Main "HOL-Library.Multiset"
begin

section \<open>The layer registry and the planner state of \<open>NeuralNet\<close>\<close>

text \<open>
  The development follows \<^verbatim>\<open>src/vdnn_ext_cmp/src/neural_net.cu\<close>. A network is a
  straight-line stack of layers; \<open>layer_type\<close> holds the kind of each layer,
  \<open>to_offload\<close> and \<open>prefetched\<close> are the planner's per-layer flags, and
  \<open>layer_input_size\<close> has one entry more than there are layers (entry \<open>i\<close> is the
  element count of the input of layer \<open>i\<close>, the last entry the one of the network
  output). Sizes are natural numbers: the arithmetic of the source on them is
  \<^verbatim>\<open>int\<close> and \<^verbatim>\<open>size_t\<close> arithmetic, which is modelled without wrap-around.
\<close>

datatype LayerOp = CONV | FULLY_CONNECTED | DROPOUT | BATCHNORM | POOLING | ACTV | SOFTMAX

datatype OffloadType = OFFLOAD_ALL | OFFLOAD_NONE | OFFLOAD_CONV

text \<open>
  The fields of \<^verbatim>\<open>ConvLayerParams\<close>, \<^verbatim>\<open>FCLayerParams\<close> and
  \<^verbatim>\<open>BatchNormLayerParams\<close> that the memory schedule reads. The classes are declared
  outside the file at hand; only the field reads of \<^verbatim>\<open>neural_net.cu\<close> are modelled,
  and a layer of another kind leaves the fields it does not have unused.
\<close>

record LayerParams =
  fwd_workspace_size :: nat
  bwd_filter_workspace_size :: nat
  bwd_data_workspace_size :: nat
  kernel_size :: nat
  C_out :: nat
  weight_matrix_size :: nat
  allocation_size :: nat

record NeuralNet =
  layer_type :: "LayerOp list"
  to_offload :: "bool list"
  prefetched :: "bool list"
  layer_input_size :: "nat list"
  params :: "LayerParams list"
  data_type_size :: nat
  batch_size :: nat
  num_classes :: nat
  pre_alloc_conv_derivative :: bool
  pre_alloc_fc_derivative :: bool
  pre_alloc_batch_norm_derivative :: bool

definition num_layers :: "'a NeuralNet_scheme \<Rightarrow> nat" where
  "num_layers net = length (layer_type net)"

subsection \<open>\<open>setOffload\<close>\<close>

text \<open>
  The second loop of the \<^verbatim>\<open>OFFLOAD_CONV\<close> and \<^verbatim>\<open>OFFLOAD_ALL\<close> branches:
  \<^verbatim>\<open>for (int i = num_layers - 1; i >= 0; i--)\<close> skips Softmax and Activation layers
  and clears the flag of the first other layer it meets, then breaks. The argument
  counts the layers still to scan, so \<open>Suc i\<close> stands for the loop index \<open>i\<close>.
\<close>

fun setLastNoOffload :: "LayerOp list \<Rightarrow> bool list \<Rightarrow> nat \<Rightarrow> bool list" where
  "setLastNoOffload lt off 0 = off"
| "setLastNoOffload lt off (Suc i) =
     (if lt ! i = SOFTMAX \<or> lt ! i = ACTV then setLastNoOffload lt off i
      else off[i := False])"

definition setOffload :: "OffloadType \<Rightarrow> NeuralNet \<Rightarrow> NeuralNet" where
  "setOffload offload_type net =
     (case offload_type of
        OFFLOAD_NONE \<Rightarrow> net\<lparr>to_offload := map (\<lambda>l. False) (layer_type net)\<rparr>
      | OFFLOAD_CONV \<Rightarrow>
          net\<lparr>to_offload :=
            setLastNoOffload (layer_type net)
              (map (\<lambda>l. if l = CONV then True else False) (layer_type net))
              (num_layers net)\<rparr>
      | OFFLOAD_ALL \<Rightarrow>
          net\<lparr>to_offload :=
            setLastNoOffload (layer_type net)
              (map (\<lambda>l. if l = ACTV \<or> l = SOFTMAX then False else True) (layer_type net))
              (num_layers net)\<rparr>)"

definition resetPrefetched :: "NeuralNet \<Rightarrow> NeuralNet" where
  "resetPrefetched net = net\<lparr>prefetched := map (\<lambda>l. False) (layer_type net)\<rparr>"

text \<open>
  Vocabulary of the statements about \<open>setOffload\<close>: a layer kind is \<open>trailing\<close> when
  it is Activation or Softmax, and \<open>lastNonTrailing lt i\<close> says that \<open>i\<close> is the last
  layer that is neither.
\<close>

definition trailing :: "LayerOp \<Rightarrow> bool" where
  "trailing l = (l = ACTV \<or> l = SOFTMAX)"

definition lastNonTrailing :: "LayerOp list \<Rightarrow> nat \<Rightarrow> bool" where
  "lastNonTrailing lt i =
     (i < length lt \<and> \<not> trailing (lt ! i) \<and> list_all trailing (drop (Suc i) lt))"

subsection \<open>\<open>findPrefetchLayer\<close>\<close>

text \<open>
  \<^verbatim>\<open>for (int i = cur_layer - 1; i >= 0; i--)\<close>: the first layer below \<open>cur_layer\<close>
  that is marked for offload and not yet prefetched is flagged as prefetched and
  returned; a Convolution layer met before one is found ends the scan with \<open>-1\<close>, and
  so does the end of the scan. The result is the returned \<^verbatim>\<open>int\<close> together with the
  updated \<open>prefetched\<close> array.
\<close>

fun findPrefetchLoop :: "LayerOp list \<Rightarrow> bool list \<Rightarrow> bool list \<Rightarrow> nat \<Rightarrow> int \<times> bool list" where
  "findPrefetchLoop lt off pf 0 = (- 1, pf)"
| "findPrefetchLoop lt off pf (Suc i) =
     (if off ! i \<and> \<not> pf ! i then (int i, pf[i := True])
      else if lt ! i = CONV then (- 1, pf)
      else findPrefetchLoop lt off pf i)"

definition findPrefetchLayer :: "NeuralNet \<Rightarrow> nat \<Rightarrow> int \<times> NeuralNet" where
  "findPrefetchLayer net cur_layer =
     (let (r, pf) = findPrefetchLoop (layer_type net) (to_offload net) (prefetched net) cur_layer
      in (r, net\<lparr>prefetched := pf\<rparr>))"

text \<open>The layers below \<open>i\<close> that are marked for offload and not yet prefetched.\<close>

definition pending :: "NeuralNet \<Rightarrow> nat \<Rightarrow> nat set" where
  "pending net i = {j. j < i \<and> to_offload net ! j \<and> \<not> prefetched net ! j}"

text \<open>
  A small network used to instantiate the statements: two convolutions around a
  fully connected layer, a standalone activation, and the final softmax.
\<close>

definition offloadNet :: NeuralNet where
  "offloadNet =
     \<lparr>layer_type = [CONV, FULLY_CONNECTED, CONV, ACTV, SOFTMAX],
      to_offload = [False, False, False, False, False],
      prefetched = [False, False, False, False, False],
      layer_input_size = [8, 6, 4, 4, 4, 4],
      params = replicate 5
        \<lparr>fwd_workspace_size = 16, bwd_filter_workspace_size = 8,
          bwd_data_workspace_size = 24, kernel_size = 9, C_out = 2,
          weight_matrix_size = 12, allocation_size = 0\<rparr>,
      data_type_size = 4, batch_size = 2, num_classes = 2,
      pre_alloc_conv_derivative = False, pre_alloc_fc_derivative = False,
      pre_alloc_batch_norm_derivative = True\<rparr>"


section \<open>The suballocator: \<open>lockedcnmemMalloc\<close> and \<open>lockedcnmemFree\<close>\<close>

text \<open>
  The pool is the external cnmem library; its status codes are those of
  \<^verbatim>\<open>cnmemStatus_t\<close>. A call of the suballocator is modelled by the trace of the
  operations it performs. What the pool answers to the successive \<^verbatim>\<open>cnmemMalloc\<close>
  attempts of one call depends on the other threads, so it is an input: the list
  of the statuses of the attempts, in order. The \<^verbatim>\<open>pthread\<close> calls are taken to
  succeed.
\<close>

datatype cnmemStatus =
    CNMEM_STATUS_SUCCESS
  | CNMEM_STATUS_CUDA_ERROR
  | CNMEM_STATUS_INVALID_ARGUMENT
  | CNMEM_STATUS_NOT_INITIALIZED
  | CNMEM_STATUS_OUT_OF_MEMORY
  | CNMEM_STATUS_UNKNOWN_ERROR

datatype lockedOp =
    MutexLock
  | MutexUnlock
  | PoolMalloc cnmemStatus
  | PoolFree cnmemStatus
  | CondWait
  | CondBroadcast

text \<open>
  How a call ends: it returns, it ends the process through \<^verbatim>\<open>checkCNMEM\<close>
  (\<open>Fatal\<close>), or it is still inside its \<^verbatim>\<open>while (true)\<close> loop when the listed
  answers of the pool are used up. Each carries the operations performed so far.
\<close>

datatype lockedResult =
    Returned "lockedOp list"
  | Fatal "lockedOp list"
  | InLoop "lockedOp list"

text \<open>
  The loop of \<open>lockedcnmemMalloc\<close>: success breaks, out-of-memory waits on the
  condition variable, and any other status falls through both branches of the
  \<^verbatim>\<open>if\<close> and starts the next iteration.
\<close>

fun lockedMallocLoop :: "cnmemStatus list \<Rightarrow> lockedOp list \<Rightarrow> lockedResult" where
  "lockedMallocLoop [] ops = InLoop ops"
| "lockedMallocLoop (status # rest) ops =
     (if status = CNMEM_STATUS_SUCCESS
        then Returned (ops @ [PoolMalloc status, MutexUnlock])
      else if status = CNMEM_STATUS_OUT_OF_MEMORY
        then lockedMallocLoop rest (ops @ [PoolMalloc status, CondWait])
      else lockedMallocLoop rest (ops @ [PoolMalloc status]))"

definition lockedcnmemMalloc :: "cnmemStatus list \<Rightarrow> lockedResult" where
  "lockedcnmemMalloc answers = lockedMallocLoop answers [MutexLock]"

text \<open>
  Modelled from the spec: the macro \<^verbatim>\<open>checkCNMEM\<close> is defined outside
  \<^verbatim>\<open>neural_net.cu\<close>; by section 7 of the specification a failing pool call is
  fatal, so any status but success ends the process.
\<close>

definition lockedcnmemFree :: "cnmemStatus \<Rightarrow> lockedResult" where
  "lockedcnmemFree status =
     (if status = CNMEM_STATUS_SUCCESS
        then Returned [MutexLock, PoolFree status, CondBroadcast, MutexUnlock]
      else Fatal [MutexLock, PoolFree status])"

section \<open>The planning policy: \<open>vDNNOptimize\<close>\<close>

datatype vDNNType = vDNN_NONE | vDNN_CONV | vDNN_ALL | vDNN_DYN

datatype vDNNConvAlgo = vDNN_PERFORMANCE_OPTIMAL | vDNN_MEMORY_OPTIMAL

datatype vDNNConvAlgoPref = PREFER_PERFORMANCE_OPTIMAL | PREFER_MEMORY_OPTIMAL

text \<open>
  A candidate plan: the offload policy, the algorithm preference and the
  discipline (\<open>True\<close> is hard, \<open>False\<close> is soft).
\<close>

type_synonym candidate = "OffloadType \<times> vDNNConvAlgoPref \<times> bool"

text \<open>
  How \<open>vDNNOptimize\<close> ends: it returns with the network as the last simulated
  candidate left it, it calls \<^verbatim>\<open>outOfMemory()\<close>, or it reaches the \<^verbatim>\<open>exit(0)\<close>
  of its last line. Modelled from the spec: \<^verbatim>\<open>outOfMemory()\<close> is defined outside
  \<^verbatim>\<open>neural_net.cu\<close>; by section 4.3 of the specification it is the planner's
  failure, so it is taken to end the process.
\<close>

datatype planOutcome = Planned candidate | OutOfMemory | Exit0

text \<open>
  One attempt of the planner: \<open>setOffload\<close>, \<open>resetPrefetched\<close>, then the
  simulation. The simulation is a parameter here, a function of the prepared
  network, the preference and the discipline that says whether the plan was
  confirmed.
\<close>

definition attempt ::
  "(NeuralNet \<Rightarrow> vDNNConvAlgoPref \<Rightarrow> bool \<Rightarrow> bool) \<Rightarrow> NeuralNet \<Rightarrow> candidate \<Rightarrow> bool" where
  "attempt simulate net c =
     (case c of (offload_type, algo_pref, hard) \<Rightarrow>
        simulate (resetPrefetched (setOffload offload_type net)) algo_pref hard)"

text \<open>
  The three fixed policies: one attempt with the configured algorithm, hard;
  \<^verbatim>\<open>outOfMemory()\<close> when it fails. The result carries the candidates tried, in order.
\<close>

definition vDNNOptimizeFixed ::
  "(NeuralNet \<Rightarrow> vDNNConvAlgoPref \<Rightarrow> bool \<Rightarrow> bool) \<Rightarrow> OffloadType \<Rightarrow> vDNNConvAlgo \<Rightarrow>
   NeuralNet \<Rightarrow> planOutcome \<times> candidate list" where
  "vDNNOptimizeFixed simulate offload_type vdnn_conv_algo net =
     (let c = (offload_type,
               (case vdnn_conv_algo of
                  vDNN_PERFORMANCE_OPTIMAL \<Rightarrow> PREFER_PERFORMANCE_OPTIMAL
                | vDNN_MEMORY_OPTIMAL \<Rightarrow> PREFER_MEMORY_OPTIMAL),
               True)
      in if \<not> attempt simulate net c then (OutOfMemory, [c]) else (Planned c, [c]))"

text \<open>
  The dynamic policy, \<^verbatim>\<open>if (vdnn_type == vDNN_DYN) { ... } exit(0);\<close>, attempt by
  attempt as the source lists them.
\<close>

definition vDNNOptimizeDyn ::
  "(NeuralNet \<Rightarrow> vDNNConvAlgoPref \<Rightarrow> bool \<Rightarrow> bool) \<Rightarrow> NeuralNet \<Rightarrow>
   planOutcome \<times> candidate list" where
  "vDNNOptimizeDyn simulate net =
     (let hard = True; soft = False;
          c1 = (OFFLOAD_ALL, PREFER_MEMORY_OPTIMAL, hard);
          c2 = (OFFLOAD_NONE, PREFER_PERFORMANCE_OPTIMAL, hard);
          c3 = (OFFLOAD_CONV, PREFER_PERFORMANCE_OPTIMAL, hard);
          c4 = (OFFLOAD_ALL, PREFER_PERFORMANCE_OPTIMAL, hard);
          c5 = (OFFLOAD_CONV, PREFER_PERFORMANCE_OPTIMAL, soft);
          c6 = (OFFLOAD_ALL, PREFER_PERFORMANCE_OPTIMAL, soft);
          c7 = (OFFLOAD_CONV, PREFER_MEMORY_OPTIMAL, hard);
          c8 = (OFFLOAD_ALL, PREFER_MEMORY_OPTIMAL, hard)
      in if \<not> attempt simulate net c1 then (OutOfMemory, [c1])
         else if attempt simulate net c2 then (Planned c2, [c1, c2])
         else if attempt simulate net c3 then (Planned c3, [c1, c2, c3])
         else if attempt simulate net c4 then (Planned c4, [c1, c2, c3, c4])
         else if attempt simulate net c5 then (Planned c5, [c1, c2, c3, c4, c5])
         else if attempt simulate net c6 then (Planned c6, [c1, c2, c3, c4, c5, c6])
         else if attempt simulate net c7 then (Planned c7, [c1, c2, c3, c4, c5, c6, c7])
         else if attempt simulate net c8 then (Planned c8, [c1, c2, c3, c4, c5, c6, c7, c8])
         else (Exit0, [c1, c2, c3, c4, c5, c6, c7, c8]))"

definition vDNNOptimize ::
  "(NeuralNet \<Rightarrow> vDNNConvAlgoPref \<Rightarrow> bool \<Rightarrow> bool) \<Rightarrow> vDNNType \<Rightarrow> vDNNConvAlgo \<Rightarrow>
   NeuralNet \<Rightarrow> planOutcome \<times> candidate list" where
  "vDNNOptimize simulate vdnn_type vdnn_conv_algo net =
     (case vdnn_type of
        vDNN_ALL \<Rightarrow> vDNNOptimizeFixed simulate OFFLOAD_ALL vdnn_conv_algo net
      | vDNN_CONV \<Rightarrow> vDNNOptimizeFixed simulate OFFLOAD_CONV vdnn_conv_algo net
      | vDNN_NONE \<Rightarrow> vDNNOptimizeFixed simulate OFFLOAD_NONE vdnn_conv_algo net
      | vDNN_DYN \<Rightarrow> vDNNOptimizeDyn simulate net)"

text \<open>The seven candidates that follow the trainability check, in the source's order.\<close>

definition laterCandidates :: "candidate list" where
  "laterCandidates =
     [(OFFLOAD_NONE, PREFER_PERFORMANCE_OPTIMAL, True),
      (OFFLOAD_CONV, PREFER_PERFORMANCE_OPTIMAL, True),
      (OFFLOAD_ALL, PREFER_PERFORMANCE_OPTIMAL, True),
      (OFFLOAD_CONV, PREFER_PERFORMANCE_OPTIMAL, False),
      (OFFLOAD_ALL, PREFER_PERFORMANCE_OPTIMAL, False),
      (OFFLOAD_CONV, PREFER_MEMORY_OPTIMAL, True),
      (OFFLOAD_ALL, PREFER_MEMORY_OPTIMAL, True)]"

definition trainabilityCheck :: candidate where
  "trainabilityCheck = (OFFLOAD_ALL, PREFER_MEMORY_OPTIMAL, True)"

text \<open>
  The planning policy as the claim words it: (all, planner-specified, hard) is
  simulated as the trainability check, with the algorithm preference the planner
  was configured with; when it confirms, the seven candidates after it are tried in
  their order and the first that confirms is returned; the planner fails with
  \<open>OutOfMemory\<close> when none confirms.
\<close>

definition choose_plan_spec ::
  "(NeuralNet \<Rightarrow> vDNNConvAlgoPref \<Rightarrow> bool \<Rightarrow> bool) \<Rightarrow> vDNNConvAlgoPref \<Rightarrow> NeuralNet \<Rightarrow>
   planOutcome" where
  "choose_plan_spec simulate specified net =
     (if \<not> attempt simulate net (OFFLOAD_ALL, specified, True) then OutOfMemory
      else case find (attempt simulate net) laterCandidates of
             Some c \<Rightarrow> Planned c
           | None \<Rightarrow> OutOfMemory)"

text \<open>
  A simulation that confirms the plans with the memory-optimal preference and no
  other: the network fits with the memory-optimal algorithms only.
\<close>

definition memoryOptimalOnly :: "NeuralNet \<Rightarrow> vDNNConvAlgoPref \<Rightarrow> bool \<Rightarrow> bool" where
  "memoryOptimalOnly net algo_pref hard = (algo_pref = PREFER_MEMORY_OPTIMAL)"

section \<open>The executor: one call of \<open>getLoss\<close>\<close>

text \<open>
  A call of \<open>getLoss\<close> is modelled by the sequence of the operations its main thread
  performs on the device pool, on its pointer tables, on its own \<^verbatim>\<open>space_tracker\<close>
  and on the threads and semaphores, in program order. The numeric kernels are
  opaque: a layer's forward or backward computation is one event. Stream
  synchronisation and the timing calls are left out.
\<close>

datatype buffer = LayerInput nat | DLayerInput nat | Workspace

datatype Op = SUB | ADD

datatype event =
    CnmemMalloc buffer nat
  | CnmemFree buffer
  | AllocDerivatives nat
  | FreeDerivatives nat
  | UpdateSpace Op nat
  | OffloadAsync nat
  | ThreadFreeLayerInput nat
  | SemWaitOffload nat
  | SemWaitPrefetch nat
  | PrefetchAsync nat
  | AssignLayerInput nat nat
  | AssignDLayerInput nat nat
  | ForwardCompute nat
  | SoftmaxForward nat
  | BackwardCompute nat
  | ComputeLoss
  | CompareOutputCorrect

text \<open>
  \<open>CnmemMalloc b n\<close> is a \<^verbatim>\<open>cnmemMalloc\<close> (locked or not) of \<open>n\<close> bytes into the pointer
  \<open>b\<close>; \<open>CnmemFree b\<close> frees the block \<open>b\<close> points to; \<open>AllocDerivatives i\<close> and
  \<open>FreeDerivatives i\<close> are the calls of \<^verbatim>\<open>cnmemAllocDerivatives\<close> and
  \<^verbatim>\<open>cnmemFreeDerivatives\<close> of layer \<open>i\<close>; \<open>UpdateSpace op n\<close> is
  \<^verbatim>\<open>space_tracker.updateSpace(op, n)\<close>; \<open>OffloadAsync i\<close> is the asynchronous copy of
  \<^verbatim>\<open>layer_input[i]\<close> to the host with the record of \<^verbatim>\<open>event_offload_done[i]\<close>;
  \<open>ThreadFreeLayerInput i\<close> creates and detaches the thread that runs
  \<open>threadFreeLayerInputFunction i\<close>; \<open>PrefetchAsync j\<close> is the asynchronous copy into
  \<^verbatim>\<open>layer_input[j]\<close>, the record of \<^verbatim>\<open>event_prefetch_done[j]\<close> and the thread that
  posts \<^verbatim>\<open>sem_prefetch_done[j]\<close>; \<open>AssignLayerInput a b\<close> is
  \<^verbatim>\<open>layer_input[a] = layer_input[b]\<close>, and likewise for \<^verbatim>\<open>dlayer_input\<close>;
  \<open>SemWaitOffload i\<close> and \<open>SemWaitPrefetch i\<close> are the \<^verbatim>\<open>sem_wait\<close> on
  \<^verbatim>\<open>sem_sync_offload[i]\<close> and on \<^verbatim>\<open>sem_prefetch_done[i]\<close>. The loops below list the
  events in program order; whether a wait returns is decided in \<open>getLoss\<close>.
\<close>

datatype getLossError =
  ActvWrongPlace | SoftmaxWrongPlace | IndexOutOfRange | WaitsForever event

definition input_bytes :: "NeuralNet \<Rightarrow> nat \<Rightarrow> nat" where
  "input_bytes net i = layer_input_size net ! i * data_type_size net"

text \<open>
  The body of the forward loop for layer \<open>i\<close>: its events and the index the loop
  continues with. A standalone Activation or Softmax layer ends the process
  (\<^verbatim>\<open>Panic!! ACTV wrong place\<close>); the read of \<^verbatim>\<open>layer_type[i + 1]\<close> is out of range
  when \<open>i\<close> is the last layer.
\<close>

definition forwardLayer :: "NeuralNet \<Rightarrow> bool \<Rightarrow> nat \<Rightarrow> getLossError + event list \<times> nat" where
  "forwardLayer net train i =
     (let offload = (if 0 < i \<and> to_offload net ! i \<and> train then [OffloadAsync i] else []);
          output = [CnmemMalloc (LayerInput (i + 1)) (input_bytes net (i + 1)),
                    UpdateSpace SUB (input_bytes net (i + 1))];
          cur_workspace_size = fwd_workspace_size (params net ! i)
      in case layer_type net ! i of
           ACTV \<Rightarrow> Inl ActvWrongPlace
         | SOFTMAX \<Rightarrow> Inl SoftmaxWrongPlace
         | _ \<Rightarrow>
           if \<not> i + 1 < num_layers net then Inl IndexOutOfRange
           else
             let compute =
                   (if layer_type net ! i = CONV
                    then [CnmemMalloc Workspace cur_workspace_size, ForwardCompute i,
                          UpdateSpace SUB cur_workspace_size]
                    else [ForwardCompute i]);
                 softmax =
                   (if layer_type net ! (i + 1) = SOFTMAX \<and> train
                    then [AssignLayerInput (i + 2) (i + 1), SoftmaxForward (i + 1)] else []);
                 free_thread = (if train \<and> to_offload net ! i then [ThreadFreeLayerInput i] else []);
                 free_workspace =
                   (if layer_type net ! i = CONV
                    then [CnmemFree Workspace, UpdateSpace ADD cur_workspace_size] else []);
                 free_input =
                   (if \<not> train
                    then [CnmemFree (LayerInput i), UpdateSpace ADD (input_bytes net i)] else [])
             in Inr (offload @ output @ compute @ softmax @ free_thread @ free_workspace @ free_input,
                     if layer_type net ! (i + 1) = ACTV \<or> layer_type net ! (i + 1) = SOFTMAX
                     then i + 2 else i + 1))"

lemma forwardLayer_next:
  "forwardLayer net train i = Inr (evs, j) \<Longrightarrow> i < j"
  by (auto simp: forwardLayer_def Let_def split: LayerOp.splits if_splits)

function getLossForward :: "NeuralNet \<Rightarrow> bool \<Rightarrow> nat \<Rightarrow> getLossError + event list" where
  "getLossForward net train i =
     (if \<not> i < num_layers net then Inr []
      else if \<not> train \<and> i = num_layers net - 1 then Inr []
      else case forwardLayer net train i of
             Inl e \<Rightarrow> Inl e
           | Inr (evs, j) \<Rightarrow>
               (case getLossForward net train j of
                  Inl e \<Rightarrow> Inl e
                | Inr rest \<Rightarrow> Inr (evs @ rest)))"
  by pat_completeness auto
termination
  by (relation "measure (\<lambda>(net, train, i). num_layers net - i)")
    (auto dest: forwardLayer_next)

declare getLossForward.simps [simp del]

text \<open>
  The backward loop keeps the workspace sizes of a convolution in variables of type
  \<^verbatim>\<open>int\<close>, while the fields of the layer are \<^verbatim>\<open>size_t\<close>, and hands the \<^verbatim>\<open>int\<close> to
  \<^verbatim>\<open>cnmemMalloc\<close>, which takes a \<^verbatim>\<open>size_t\<close>, and to \<^verbatim>\<open>updateSpace\<close>. \<open>intOfSize\<close> is
  the conversion to the 32-bit \<^verbatim>\<open>int\<close> (two's complement, the value modulo \<open>2^32\<close>)
  and \<open>sizeOfInt\<close> the conversion back to the 64-bit \<^verbatim>\<open>size_t\<close>; the events carry the
  \<^verbatim>\<open>size_t\<close>.
\<close>

definition intOfSize :: "nat \<Rightarrow> int" where
  "intOfSize n = (let m = int n mod 2 ^ 32 in if m < 2 ^ 31 then m else m - 2 ^ 32)"

definition sizeOfInt :: "int \<Rightarrow> nat" where
  "sizeOfInt v = nat (v mod 2 ^ 64)"

text \<open>
  The workspace of a backward convolution, \<^verbatim>\<open>cur_workspace_size\<close>: the larger of the
  filter and the data workspace as \<^verbatim>\<open>int\<close>s, the latter counted only when \<open>i > 0\<close>.
\<close>

definition backwardWorkspace :: "LayerParams \<Rightarrow> nat \<Rightarrow> int" where
  "backwardWorkspace cur_params i =
     (let cur_filter_workspace_size = intOfSize (bwd_filter_workspace_size cur_params);
          cur_data_workspace_size =
            (if 0 < i then intOfSize (bwd_data_workspace_size cur_params) else 0)
      in if cur_filter_workspace_size > cur_data_workspace_size
         then cur_filter_workspace_size else cur_data_workspace_size)"

text \<open>
  The gradient pointer of layer \<open>i\<close> in the backward loop (\<^verbatim>\<open>if (i > 0) { ... }\<close>): an
  Activation or Softmax layer shares the gradient buffer of the layer above; any
  other layer asks \<open>findPrefetchLayer\<close>, allocates the prefetched activation and
  starts its copy, and allocates its own gradient.
\<close>

definition backwardGradient :: "NeuralNet \<Rightarrow> nat \<Rightarrow> event list \<times> NeuralNet" where
  "backwardGradient net i =
     (if 0 < i then
        if layer_type net ! i = ACTV \<or> layer_type net ! i = SOFTMAX
        then ([AssignDLayerInput i (i + 1)], net)
        else
          (let (layer_to_prefetch, net') = findPrefetchLayer net i
           in ((if layer_to_prefetch \<noteq> - 1
                then [CnmemMalloc (LayerInput (nat layer_to_prefetch))
                        (input_bytes net (nat layer_to_prefetch)),
                      UpdateSpace SUB (input_bytes net (nat layer_to_prefetch)),
                      PrefetchAsync (nat layer_to_prefetch)]
                else [])
               @ [CnmemMalloc (DLayerInput i) (input_bytes net i),
                  UpdateSpace SUB (input_bytes net i)],
               net'))
      else ([], net))"

text \<open>The computation of layer \<open>i\<close> in the backward loop, with the buffers it allocates.\<close>

definition backwardCompute :: "NeuralNet \<Rightarrow> nat \<Rightarrow> event list" where
  "backwardCompute net i =
     (let cur_params = params net ! i in
      case layer_type net ! i of
        CONV \<Rightarrow>
          (if \<not> pre_alloc_conv_derivative net
           then [AllocDerivatives i,
                 UpdateSpace SUB (kernel_size cur_params * data_type_size net),
                 UpdateSpace SUB (C_out cur_params * data_type_size net)]
           else [])
          @ [CnmemMalloc Workspace (sizeOfInt (backwardWorkspace cur_params i)),
             BackwardCompute i,
             UpdateSpace SUB (sizeOfInt (backwardWorkspace cur_params i))]
      | FULLY_CONNECTED \<Rightarrow>
          (if \<not> pre_alloc_fc_derivative net
           then [AllocDerivatives i,
                 UpdateSpace SUB (weight_matrix_size cur_params * data_type_size net),
                 UpdateSpace SUB (C_out cur_params * data_type_size net)]
           else [])
          @ [BackwardCompute i]
      | BATCHNORM \<Rightarrow>
          (if \<not> pre_alloc_batch_norm_derivative net
           then [AllocDerivatives i,
                 UpdateSpace SUB (allocation_size cur_params * data_type_size net),
                 UpdateSpace SUB (allocation_size cur_params * data_type_size net)]
           else [])
          @ [BackwardCompute i]
      | _ \<Rightarrow> [BackwardCompute i])"

text \<open>
  The releases that end the backward step of a layer that is neither Activation
  nor Softmax (those leave the loop body through \<^verbatim>\<open>continue\<close> before): first the
  workspace and the weight-gradient buffers of the layer, by its kind, then the
  layer's output, the gradient above it and, for the first layer, its input.
\<close>

definition backwardReleaseKind :: "NeuralNet \<Rightarrow> nat \<Rightarrow> event list" where
  "backwardReleaseKind net i =
     (let cur_params = params net ! i in
      case layer_type net ! i of
        CONV \<Rightarrow>
          [CnmemFree Workspace, UpdateSpace ADD (sizeOfInt (backwardWorkspace cur_params i))]
          @ (if \<not> pre_alloc_conv_derivative net
             then [FreeDerivatives i,
                   UpdateSpace ADD (kernel_size cur_params * data_type_size net),
                   UpdateSpace ADD (C_out cur_params * data_type_size net)]
             else [])
      | FULLY_CONNECTED \<Rightarrow>
          (if \<not> pre_alloc_fc_derivative net
           then [FreeDerivatives i,
                 UpdateSpace ADD (weight_matrix_size cur_params * data_type_size net),
                 UpdateSpace ADD (C_out cur_params * data_type_size net)]
           else [])
      | BATCHNORM \<Rightarrow>
          (if \<not> pre_alloc_batch_norm_derivative net
           then [FreeDerivatives i,
                 UpdateSpace ADD (allocation_size cur_params * data_type_size net),
                 UpdateSpace ADD (allocation_size cur_params * data_type_size net)]
           else [])
      | _ \<Rightarrow> [])"

definition backwardRelease :: "NeuralNet \<Rightarrow> nat \<Rightarrow> event list" where
  "backwardRelease net i =
     backwardReleaseKind net i
     @ [CnmemFree (LayerInput (i + 1)), UpdateSpace ADD (input_bytes net (i + 1)),
        CnmemFree (DLayerInput (i + 1)), UpdateSpace ADD (input_bytes net (i + 1))]
     @ (if i = 0 then [CnmemFree (LayerInput i), UpdateSpace ADD (input_bytes net i)] else [])"

text \<open>
  The body of the backward loop for layer \<open>i\<close>: the \<^verbatim>\<open>sem_wait\<close> on
  \<^verbatim>\<open>sem_prefetch_done[i]\<close> when the layer is marked for offload (an event here; it
  returns only if the prefetch of layer \<open>i\<close> was started before, which \<open>getLoss\<close>
  below decides), the gradient pointer, the computation and the releases.
\<close>

definition backwardLayer :: "NeuralNet \<Rightarrow> nat \<Rightarrow> event list \<times> NeuralNet" where
  "backwardLayer net i =
     (let wait = (if to_offload net ! i then [SemWaitPrefetch i] else []);
          (gradient, net') = backwardGradient net i
      in (wait @ gradient @ backwardCompute net i
          @ (if layer_type net ! i = ACTV \<or> layer_type net ! i = SOFTMAX then []
             else backwardRelease net i),
          net'))"

text \<open>
  \<^verbatim>\<open>for (int i = num_layers - 1; i >= 0; i--)\<close>: the argument counts the layers still
  to process, so \<open>Suc i\<close> stands for the loop index \<open>i\<close>.
\<close>

fun getLossBackward :: "NeuralNet \<Rightarrow> nat \<Rightarrow> event list" where
  "getLossBackward net 0 = []"
| "getLossBackward net (Suc i) =
     (let (evs, net') = backwardLayer net i in evs @ getLossBackward net' i)"

definition getLossProgram :: "NeuralNet \<Rightarrow> bool \<Rightarrow> getLossError + event list" where
  "getLossProgram net train =
     (let net0 = resetPrefetched net;
          input = [CnmemMalloc (LayerInput 0) (input_bytes net 0),
                   UpdateSpace SUB (input_bytes net 0)]
      in case getLossForward net0 train 0 of
           Inl e \<Rightarrow> Inl e
         | Inr forward \<Rightarrow>
             if \<not> train then
               if num_layers net = 0 then Inl IndexOutOfRange
               else Inr (input @ forward @
                         [CompareOutputCorrect, CnmemFree (LayerInput (num_layers net - 1)),
                          UpdateSpace ADD (input_bytes net (num_layers net - 1))])
             else
               Inr (input @ forward
                    @ map SemWaitOffload (filter (\<lambda>i. to_offload net ! i) [0..<num_layers net])
                    @ [ComputeLoss,
                       CnmemMalloc (DLayerInput (num_layers net))
                         (batch_size net * num_classes net * data_type_size net),
                       UpdateSpace SUB (input_bytes net (num_layers net))]
                    @ getLossBackward net0 (num_layers net)))"

text \<open>
  The semaphores are initialised with \<open>0\<close> by the constructor. \<^verbatim>\<open>sem_sync_offload[i]\<close>
  is posted only by the worker \<open>ThreadFreeLayerInput i\<close> creates, and
  \<^verbatim>\<open>sem_prefetch_done[i]\<close> only by the thread \<open>PrefetchAsync i\<close> creates, once each. So
  a \<^verbatim>\<open>sem_wait\<close> returns only if, so far in the call, more such threads were created
  than waits on the semaphore have returned; otherwise the call never returns.
  \<open>passes done e\<close> says that \<open>e\<close> can return after the events \<open>done\<close>, and
  \<open>firstBlocked done evs\<close> is the first event of \<open>evs\<close> that cannot.
\<close>

definition passes :: "event list \<Rightarrow> event \<Rightarrow> bool" where
  "passes ops e =
     (case e of
        SemWaitOffload i \<Rightarrow>
          count_list ops (SemWaitOffload i) < count_list ops (ThreadFreeLayerInput i)
      | SemWaitPrefetch i \<Rightarrow>
          count_list ops (SemWaitPrefetch i) < count_list ops (PrefetchAsync i)
      | _ \<Rightarrow> True)"

fun firstBlocked :: "event list \<Rightarrow> event list \<Rightarrow> event option" where
  "firstBlocked ops [] = None"
| "firstBlocked ops (e # evs) =
     (if passes ops e then firstBlocked (ops @ [e]) evs else Some e)"

text \<open>
  A call of \<open>getLoss\<close>: its events in program order when no wait blocks, and
  \<open>WaitsForever e\<close> when the wait \<open>e\<close> never returns. The pool is not part of the
  model: the events are those of a call in which the pool serves every allocation
  (a \<^verbatim>\<open>lockedcnmemMalloc\<close> it cannot serve waits for a free, a \<^verbatim>\<open>checkCNMEM\<close> one
  ends the process).
\<close>

definition getLoss :: "NeuralNet \<Rightarrow> bool \<Rightarrow> getLossError + event list" where
  "getLoss net train =
     (case getLossProgram net train of
        Inl e \<Rightarrow> Inl e
      | Inr evs \<Rightarrow>
          (case firstBlocked [] evs of
             Some e \<Rightarrow> Inl (WaitsForever e)
           | None \<Rightarrow> Inr evs))"

subsection \<open>The detached threads and the schedules of a call\<close>

text \<open>
  The two kinds of detached threads of \<open>getLoss\<close>, as the operations they perform.
  \<open>threadFreeLayerInputFunction\<close>, created by \<open>ThreadFreeLayerInput i\<close>, waits for the
  offload event of its layer (\<open>EventSynchronizeOffload\<close>), frees the layer's device
  activation through the suballocator (\<open>LockedFreeLayerInput\<close>) and posts
  \<^verbatim>\<open>sem_sync_offload\<close> of the layer (\<open>SemPostOffload\<close>). \<open>threadFlagPrefetchDone\<close>,
  created by \<open>PrefetchAsync i\<close>, waits for the prefetch event of its layer and posts
  \<^verbatim>\<open>sem_prefetch_done\<close> of the layer.
\<close>

datatype workerOp =
    EventSynchronizeOffload nat
  | LockedFreeLayerInput nat
  | SemPostOffload nat
  | EventSynchronizePrefetch nat
  | SemPostPrefetch nat

definition threadFreeLayerInputFunction :: "nat \<Rightarrow> workerOp list" where
  "threadFreeLayerInputFunction layer_num =
     [EventSynchronizeOffload layer_num, LockedFreeLayerInput layer_num,
      SemPostOffload layer_num]"

definition threadFlagPrefetchDone :: "nat \<Rightarrow> workerOp list" where
  "threadFlagPrefetchDone layer_num =
     [EventSynchronizePrefetch layer_num, SemPostPrefetch layer_num]"

text \<open>
  A run of a call interleaves the events of the main thread with the operations of
  the threads it created. \<open>threadOf\<close> gives, for an operation, the event that
  creates its thread and the body of the thread. \<open>needs a\<close> is what must have
  happened once more than \<open>a\<close> for \<open>a\<close> to happen: for the first operation of a
  thread its creation, for a later one the operation before it in the body, and for
  a \<^verbatim>\<open>sem_wait\<close> of the main thread the \<^verbatim>\<open>sem_post\<close> on the same semaphore (the
  semaphores start at \<open>0\<close>). The waits on the device events are not constrained:
  the device streams are not modelled.
\<close>

datatype action = Main event | Thread workerOp

fun threadOf :: "workerOp \<Rightarrow> event \<times> workerOp list" where
  "threadOf (EventSynchronizeOffload i) = (ThreadFreeLayerInput i, threadFreeLayerInputFunction i)"
| "threadOf (LockedFreeLayerInput i) = (ThreadFreeLayerInput i, threadFreeLayerInputFunction i)"
| "threadOf (SemPostOffload i) = (ThreadFreeLayerInput i, threadFreeLayerInputFunction i)"
| "threadOf (EventSynchronizePrefetch i) = (PrefetchAsync i, threadFlagPrefetchDone i)"
| "threadOf (SemPostPrefetch i) = (PrefetchAsync i, threadFlagPrefetchDone i)"

fun needs :: "action \<Rightarrow> action option" where
  "needs (Main (SemWaitOffload i)) = Some (Thread (SemPostOffload i))"
| "needs (Main (SemWaitPrefetch i)) = Some (Thread (SemPostPrefetch i))"
| "needs (Main e) = None"
| "needs (Thread w) =
     (let (create, body) = threadOf w;
          earlier = takeWhile (\<lambda>x. x \<noteq> w) body
      in Some (if earlier = [] then Main create else Thread (last earlier)))"

definition enabled :: "action list \<Rightarrow> action \<Rightarrow> bool" where
  "enabled ops a =
     (case needs a of
        None \<Rightarrow> True
      | Some b \<Rightarrow> count_list ops a < count_list ops b)"

text \<open>
  \<open>scheduleFrom ops run\<close>: after the actions \<open>ops\<close>, the actions of \<open>run\<close> can happen
  in their order. A \<open>schedule\<close> is a run of a call from its start, and \<open>mainOf run\<close>
  is what the main thread does in it.
\<close>

fun scheduleFrom :: "action list \<Rightarrow> action list \<Rightarrow> bool" where
  "scheduleFrom ops [] = True"
| "scheduleFrom ops (a # run) = (enabled ops a \<and> scheduleFrom (ops @ [a]) run)"

definition schedule :: "action list \<Rightarrow> bool" where
  "schedule run = scheduleFrom [] run"

fun mainEvent :: "action \<Rightarrow> event list" where
  "mainEvent (Main e) = [e]"
| "mainEvent (Thread w) = []"

definition mainOf :: "action list \<Rightarrow> event list" where
  "mainOf run = concat (map mainEvent run)"

text \<open>
  The run in which every thread runs to its end as soon as it is created.
\<close>

fun spawned :: "event \<Rightarrow> workerOp list" where
  "spawned (ThreadFreeLayerInput i) = threadFreeLayerInputFunction i"
| "spawned (PrefetchAsync i) = threadFlagPrefetchDone i"
| "spawned e = []"

definition eagerSchedule :: "event list \<Rightarrow> action list" where
  "eagerSchedule evs = concat (map (\<lambda>e. Main e # map Thread (spawned e)) evs)"

subsection \<open>The pointer tables along a call\<close>

text \<open>
  The device pointers \<^verbatim>\<open>layer_input[i]\<close>, \<^verbatim>\<open>dlayer_input[i]\<close> and
  \<^verbatim>\<open>cur_workspace\<close> as the events set them. cnmem is an external library: the
  address an allocation returns is represented by the serial number of the
  allocation within the call, so that two pointers are equal when they were set
  from the same allocation; \<open>None\<close> is a pointer the call has not set yet.
\<close>

record pointers =
  layer_input :: "nat \<Rightarrow> nat option"
  dlayer_input :: "nat \<Rightarrow> nat option"
  cur_workspace :: "nat option"
  allocations :: nat

definition noPointers :: pointers where
  "noPointers =
     \<lparr>layer_input = (\<lambda>i. None), dlayer_input = (\<lambda>i. None), cur_workspace = None,
      allocations = 0\<rparr>"

fun execPointers :: "pointers \<Rightarrow> event \<Rightarrow> pointers" where
  "execPointers st (CnmemMalloc (LayerInput i) n) =
     st\<lparr>layer_input := (layer_input st)(i := Some (allocations st)),
        allocations := Suc (allocations st)\<rparr>"
| "execPointers st (CnmemMalloc (DLayerInput i) n) =
     st\<lparr>dlayer_input := (dlayer_input st)(i := Some (allocations st)),
        allocations := Suc (allocations st)\<rparr>"
| "execPointers st (CnmemMalloc Workspace n) =
     st\<lparr>cur_workspace := Some (allocations st), allocations := Suc (allocations st)\<rparr>"
| "execPointers st (AssignLayerInput a b) =
     st\<lparr>layer_input := (layer_input st)(a := layer_input st b)\<rparr>"
| "execPointers st (AssignDLayerInput a b) =
     st\<lparr>dlayer_input := (dlayer_input st)(a := dlayer_input st b)\<rparr>"
| "execPointers st e = st"

definition pointersAfter :: "event list \<Rightarrow> pointers" where
  "pointersAfter evs = foldl execPointers noPointers evs"

text \<open>
  The pointer tables in which layer \<open>i\<close> executes its backward computation: those
  reached by the events of the call that precede \<open>BackwardCompute i\<close>.
\<close>

definition pointersAtBackward :: "event list \<Rightarrow> nat \<Rightarrow> pointers" where
  "pointersAtBackward evs i = pointersAfter (takeWhile (\<lambda>e. e \<noteq> BackwardCompute i) evs)"

definition allocatesGradient :: "event list \<Rightarrow> nat \<Rightarrow> bool" where
  "allocatesGradient evs i = list_ex (\<lambda>e. case e of CnmemMalloc b n \<Rightarrow> b = DLayerInput i | _ \<Rightarrow> False) evs"

text \<open>Three layers, the last a Softmax: the smallest network a training step accepts.\<close>

definition fcNet :: NeuralNet where
  "fcNet =
     \<lparr>layer_type = [FULLY_CONNECTED, FULLY_CONNECTED, SOFTMAX],
      to_offload = [True, False, False],
      prefetched = [False, False, False],
      layer_input_size = [8, 6, 4, 4],
      params = [\<lparr>fwd_workspace_size = 0, bwd_filter_workspace_size = 0,
                  bwd_data_workspace_size = 0, kernel_size = 0, C_out = 3,
                  weight_matrix_size = 12, allocation_size = 0\<rparr>,
                \<lparr>fwd_workspace_size = 0, bwd_filter_workspace_size = 0,
                  bwd_data_workspace_size = 0, kernel_size = 0, C_out = 2,
                  weight_matrix_size = 6, allocation_size = 0\<rparr>,
                \<lparr>fwd_workspace_size = 0, bwd_filter_workspace_size = 0,
                  bwd_data_workspace_size = 0, kernel_size = 0, C_out = 0,
                  weight_matrix_size = 0, allocation_size = 0\<rparr>],
      data_type_size = 4, batch_size = 2, num_classes = 2,
      pre_alloc_conv_derivative = False, pre_alloc_fc_derivative = False,
      pre_alloc_batch_norm_derivative = True\<rparr>"

section \<open>The memory planner: \<open>simulateNeuralNetworkMemory\<close>\<close>

text \<open>
  Modelled from the spec: the class \<^verbatim>\<open>CnmemSpace\<close> of the \<^verbatim>\<open>space_tracker\<close> is
  declared outside \<^verbatim>\<open>neural_net.cu\<close>. By section 4.3 of the specification the
  simulation tracks the consumed bytes and their maximum as allocations and releases
  occur: \<open>updateSpace SUB n\<close> takes \<open>n\<close> bytes from the free bytes and
  \<open>updateSpace ADD n\<close> gives them back, \<open>getConsumed\<close> is what was taken in total,
  \<open>updateMaxConsume\<close> raises the maximum to it, and \<open>isAvailable\<close> says that no more
  was taken than there was. Bytes are integers without wrap-around. The field
  \<open>calls\<close> is not a field of the class: it records the calls of \<open>updateSpace\<close> in
  order, so that the sequence of allocations and releases of the simulation can be
  stated.
\<close>

record CnmemSpace =
  initial_free_bytes :: int
  free_bytes :: int
  calls :: "(Op \<times> int) list"

definition newCnmemSpace :: "int \<Rightarrow> CnmemSpace" where
  "newCnmemSpace bytes = \<lparr>initial_free_bytes = bytes, free_bytes = bytes, calls = []\<rparr>"

definition updateSpace :: "Op \<Rightarrow> int \<Rightarrow> CnmemSpace \<Rightarrow> CnmemSpace" where
  "updateSpace op n space =
     space\<lparr>free_bytes := (case op of SUB \<Rightarrow> free_bytes space - n | ADD \<Rightarrow> free_bytes space + n),
           calls := calls space @ [(op, n)]\<rparr>"

definition getConsumed :: "CnmemSpace \<Rightarrow> int" where
  "getConsumed space = initial_free_bytes space - free_bytes space"

definition isAvailable :: "CnmemSpace \<Rightarrow> bool" where
  "isAvailable space = (0 \<le> free_bytes space)"

definition updateMaxConsume :: "CnmemSpace \<Rightarrow> int \<Rightarrow> int" where
  "updateMaxConsume space max_consume = max max_consume (getConsumed space)"

text \<open>
  \<^verbatim>\<open>ConvLayerParams::getWorkspaceSize(free_bytes, direction, algo_pref, hard)\<close> is
  defined outside \<^verbatim>\<open>neural_net.cu\<close> and is a parameter of the simulation: a function
  of the layer index, the free bytes, the direction, the preference and the
  discipline that returns the workspace bytes, or \<open>-1\<close> when no algorithm fits.
\<close>

datatype ConvDirection = FWD | BWD_FILTER | BWD_DATA

type_synonym workspaceSizes = "nat \<Rightarrow> int \<Rightarrow> ConvDirection \<Rightarrow> vDNNConvAlgoPref \<Rightarrow> bool \<Rightarrow> int"

text \<open>The state of the simulation: the space tracker and \<^verbatim>\<open>max_consume\<close>.\<close>

type_synonym simState = "CnmemSpace \<times> int"

definition allocate :: "int \<Rightarrow> simState \<Rightarrow> simState" where
  "allocate n st = (let space = updateSpace SUB n (fst st) in (space, updateMaxConsume space (snd st)))"

definition release :: "int \<Rightarrow> simState \<Rightarrow> simState" where
  "release n st = (updateSpace ADD n (fst st), snd st)"

text \<open>
  The body of the forward loop of the simulation for a layer \<open>i\<close> that is not a
  Softmax; \<open>None\<close> is \<^verbatim>\<open>return false\<close>.
\<close>

definition simulateForwardLayer ::
  "workspaceSizes \<Rightarrow> vDNNConvAlgoPref \<Rightarrow> bool \<Rightarrow> NeuralNet \<Rightarrow> nat \<Rightarrow> simState \<Rightarrow> simState option" where
  "simulateForwardLayer getWorkspaceSize algo_pref hard net i st =
     (let st1 = allocate (int (input_bytes net (i + 1))) st;
          conv =
            (if layer_type net ! i = CONV then
               let cur_workspace_size =
                     getWorkspaceSize i (free_bytes (fst st1)) FWD algo_pref hard;
                   st2 = allocate cur_workspace_size st1
               in if cur_workspace_size = - 1 \<or> \<not> isAvailable (fst st2) then None
                  else Some (release cur_workspace_size st2)
             else Some st1)
      in case conv of
           None \<Rightarrow> None
         | Some st3 \<Rightarrow>
             if \<not> isAvailable (fst st3) then None
             else if to_offload net ! i
               then Some (release (int (input_bytes net i)) st3)
               else Some st3)"

text \<open>
  \<^verbatim>\<open>for (int i = 0; i < num_layers; i++) { if (layer_type[i] == SOFTMAX) break; ... }\<close>:
  the last argument counts the layers still to visit.
\<close>

fun simulateForward ::
  "workspaceSizes \<Rightarrow> vDNNConvAlgoPref \<Rightarrow> bool \<Rightarrow> NeuralNet \<Rightarrow> nat \<Rightarrow> simState \<Rightarrow> nat \<Rightarrow> simState option" where
  "simulateForward getWorkspaceSize algo_pref hard net i st 0 = Some st"
| "simulateForward getWorkspaceSize algo_pref hard net i st (Suc k) =
     (if layer_type net ! i = SOFTMAX then Some st
      else case simulateForwardLayer getWorkspaceSize algo_pref hard net i st of
             None \<Rightarrow> None
           | Some st' \<Rightarrow> simulateForward getWorkspaceSize algo_pref hard net (i + 1) st' k)"

text \<open>
  The layer-kind part of the backward loop of the simulation: the workspace and the
  weight-gradient buffers of the layer, allocated and released.
\<close>

definition simulateBackwardKind ::
  "workspaceSizes \<Rightarrow> vDNNConvAlgoPref \<Rightarrow> bool \<Rightarrow> NeuralNet \<Rightarrow> nat \<Rightarrow> simState \<Rightarrow> simState option" where
  "simulateBackwardKind getWorkspaceSize algo_pref hard net i st =
     (let cur_params = params net ! i in
      case layer_type net ! i of
        CONV \<Rightarrow>
          (let cur_filter_workspace_size =
                 getWorkspaceSize i (free_bytes (fst st)) BWD_FILTER algo_pref hard;
               cur_data_workspace_size =
                 (if 0 < i then getWorkspaceSize i (free_bytes (fst st)) BWD_DATA algo_pref hard
                  else 0);
               cur_workspace_size =
                 (if cur_filter_workspace_size > cur_data_workspace_size
                  then cur_filter_workspace_size else cur_data_workspace_size);
               st1 = allocate cur_workspace_size st;
               st2 =
                 (if \<not> pre_alloc_conv_derivative net
                  then (let space =
                              updateSpace SUB (int (C_out cur_params * data_type_size net))
                                (updateSpace SUB (int (kernel_size cur_params * data_type_size net))
                                   (fst st1))
                        in (space, updateMaxConsume space (snd st1)))
                  else st1)
           in if cur_filter_workspace_size = - 1 \<or> cur_data_workspace_size = - 1
                 \<or> \<not> isAvailable (fst st2)
              then None
              else
                (let st3 = release cur_workspace_size st2
                 in Some (if \<not> pre_alloc_conv_derivative net
                          then release (int (C_out cur_params * data_type_size net))
                                 (release (int (kernel_size cur_params * data_type_size net)) st3)
                          else st3)))
      | FULLY_CONNECTED \<Rightarrow>
          (let st1 =
                 (if \<not> pre_alloc_fc_derivative net
                  then (let space =
                              updateSpace SUB (int (C_out cur_params * data_type_size net))
                                (updateSpace SUB
                                   (int (weight_matrix_size cur_params * data_type_size net))
                                   (fst st))
                        in (space, updateMaxConsume space (snd st)))
                  else st)
           in if \<not> isAvailable (fst st1) then None
              else Some (if \<not> pre_alloc_fc_derivative net
                         then release (int (C_out cur_params * data_type_size net))
                                (release (int (weight_matrix_size cur_params * data_type_size net))
                                   st1)
                         else st1))
      | BATCHNORM \<Rightarrow>
          (let st1 =
                 (if \<not> pre_alloc_batch_norm_derivative net
                  then (let space =
                              updateSpace SUB (int (allocation_size cur_params * data_type_size net))
                                (updateSpace SUB
                                   (int (allocation_size cur_params * data_type_size net))
                                   (fst st))
                        in (space, updateMaxConsume space (snd st)))
                  else st)
           in if \<not> isAvailable (fst st1) then None
              else Some (if \<not> pre_alloc_batch_norm_derivative net
                         then release (int (allocation_size cur_params * data_type_size net))
                                (release (int (allocation_size cur_params * data_type_size net))
                                   st1)
                         else st1))
      | _ \<Rightarrow> Some st)"

text \<open>
  The body of the backward loop of the simulation for layer \<open>i\<close>, for a layer the
  loop does not skip: the gradient of the layer below, the prefetch, the layer's own
  buffers, and the releases. It returns the network too, \<open>findPrefetchLayer\<close>
  having marked what it prefetched.
\<close>

definition simulateBackwardLayer ::
  "workspaceSizes \<Rightarrow> vDNNConvAlgoPref \<Rightarrow> bool \<Rightarrow> NeuralNet \<Rightarrow> nat \<Rightarrow> simState \<Rightarrow>
   (simState \<times> NeuralNet) option" where
  "simulateBackwardLayer getWorkspaceSize algo_pref hard net i st =
     (let st1 = (if 0 < i then allocate (int (input_bytes net i)) st else st);
          (layer_to_prefetch, net') = findPrefetchLayer net i;
          st2 = (if layer_to_prefetch \<noteq> - 1
                 then allocate (int (input_bytes net (nat layer_to_prefetch))) st1 else st1)
      in case simulateBackwardKind getWorkspaceSize algo_pref hard net i st2 of
           None \<Rightarrow> None
         | Some st3 \<Rightarrow>
             if \<not> isAvailable (fst st3) then None
             else
               (let st4 = release (int (input_bytes net (i + 1)))
                            (release (int (input_bytes net (i + 1))) st3)
                in Some (if i = 0 then release (int (input_bytes net i)) st4 else st4, net')))"

text \<open>
  \<^verbatim>\<open>for (int i = num_layers - 1; i >= 0; i--)\<close>, where a Softmax layer with \<open>i > 0\<close>
  goes on to the next layer at once (\<^verbatim>\<open>continue\<close>).
\<close>

fun simulateBackward ::
  "workspaceSizes \<Rightarrow> vDNNConvAlgoPref \<Rightarrow> bool \<Rightarrow> NeuralNet \<Rightarrow> nat \<Rightarrow> simState \<Rightarrow> simState option" where
  "simulateBackward getWorkspaceSize algo_pref hard net 0 st = Some st"
| "simulateBackward getWorkspaceSize algo_pref hard net (Suc i) st =
     (if 0 < i \<and> layer_type net ! i = SOFTMAX
      then simulateBackward getWorkspaceSize algo_pref hard net i st
      else case simulateBackwardLayer getWorkspaceSize algo_pref hard net i st of
             None \<Rightarrow> None
           | Some (st', net') \<Rightarrow> simulateBackward getWorkspaceSize algo_pref hard net' i st')"

text \<open>
  The analytic part of \<open>simulateNeuralNetworkMemory\<close>, up to the assignment of
  \<^verbatim>\<open>exp_max_consume\<close>: \<open>net_free_bytes\<close> is the member \<^verbatim>\<open>free_bytes\<close> of the
  network, which the tracker starts from. \<open>SimPanic\<close> is the \<^verbatim>\<open>exit(0)\<close> after \<^verbatim>\<open>Panic!! Using wrong size\<close>,
  \<open>SimFalse\<close> is \<^verbatim>\<open>return false\<close>, and \<open>SimDone\<close> carries the final tracker and
  \<^verbatim>\<open>max_consume\<close>.
\<close>

datatype analyticOutcome = SimPanic | SimFalse | SimDone CnmemSpace int

definition simulateAnalytic ::
  "workspaceSizes \<Rightarrow> int \<Rightarrow> vDNNConvAlgoPref \<Rightarrow> bool \<Rightarrow> NeuralNet \<Rightarrow> analyticOutcome" where
  "simulateAnalytic getWorkspaceSize net_free_bytes algo_pref hard net =
     (let st0 = allocate (int (input_bytes net 0)) (newCnmemSpace net_free_bytes, 0)
      in case simulateForward getWorkspaceSize algo_pref hard net 0 st0 (num_layers net) of
           None \<Rightarrow> SimFalse
         | Some st1 \<Rightarrow>
             if batch_size net * num_classes net * data_type_size net
                  \<noteq> input_bytes net (num_layers net)
             then SimPanic
             else
               (case simulateBackward getWorkspaceSize algo_pref hard net (num_layers net)
                       (allocate (int (input_bytes net (num_layers net))) st1) of
                  None \<Rightarrow> SimFalse
                | Some st2 \<Rightarrow> SimDone (fst st2) (snd st2)))"

subsection \<open>The confirmation against the allocator: \<open>simulateCNMEMMemory\<close>\<close>

text \<open>
  The replay of the schedule on the real allocator, as the sequence of its pool
  calls. Its forward loop visits the layers as the forward loop of \<open>getLoss\<close> does
  (an Activation or Softmax layer after a visited layer is skipped), without the
  panic; its backward loop leaves through \<^verbatim>\<open>continue\<close> for a Softmax layer only.
\<close>

definition replayForwardLayer :: "NeuralNet \<Rightarrow> nat \<Rightarrow> getLossError + event list \<times> nat" where
  "replayForwardLayer net i =
     (if \<not> i + 1 < num_layers net then Inl IndexOutOfRange
      else
        Inr ([CnmemMalloc (LayerInput (i + 1)) (input_bytes net (i + 1))]
             @ (if layer_type net ! i = CONV
                then [CnmemMalloc Workspace (fwd_workspace_size (params net ! i)),
                      CnmemFree Workspace]
                else [])
             @ (if to_offload net ! i then [CnmemFree (LayerInput i)] else []),
             if layer_type net ! (i + 1) = ACTV \<or> layer_type net ! (i + 1) = SOFTMAX
             then i + 2 else i + 1))"

lemma replayForwardLayer_next:
  "replayForwardLayer net i = Inr (evs, j) \<Longrightarrow> i < j"
  by (auto simp: replayForwardLayer_def split: if_splits)

function replayForward :: "NeuralNet \<Rightarrow> nat \<Rightarrow> getLossError + event list" where
  "replayForward net i =
     (if \<not> i < num_layers net then Inr []
      else case replayForwardLayer net i of
             Inl e \<Rightarrow> Inl e
           | Inr (evs, j) \<Rightarrow>
               (case replayForward net j of
                  Inl e \<Rightarrow> Inl e
                | Inr rest \<Rightarrow> Inr (evs @ rest)))"
  by pat_completeness auto
termination
  by (relation "measure (\<lambda>(net, i). num_layers net - i)")
    (auto dest: replayForwardLayer_next)

declare replayForward.simps [simp del]

definition replayBackwardLayer :: "NeuralNet \<Rightarrow> nat \<Rightarrow> event list \<times> NeuralNet" where
  "replayBackwardLayer net i =
     (let (gradient, net') =
            (if 0 < i then
               if layer_type net ! i = ACTV \<or> layer_type net ! i = SOFTMAX
               then ([AssignDLayerInput i (i + 1)], net)
               else
                 (let (layer_to_prefetch, net') = findPrefetchLayer net i
                  in ((if layer_to_prefetch \<noteq> - 1
                       then [CnmemMalloc (LayerInput (nat layer_to_prefetch))
                               (input_bytes net (nat layer_to_prefetch))]
                       else [])
                      @ [CnmemMalloc (DLayerInput i) (input_bytes net i)],
                      net'))
             else ([], net));
          cur_params = params net ! i
      in (gradient
          @ (case layer_type net ! i of
               SOFTMAX \<Rightarrow> []
             | CONV \<Rightarrow>
                 (if \<not> pre_alloc_conv_derivative net then [AllocDerivatives i] else [])
                 @ [CnmemMalloc Workspace (sizeOfInt (backwardWorkspace cur_params i)),
                    CnmemFree Workspace]
                 @ (if \<not> pre_alloc_conv_derivative net then [FreeDerivatives i] else [])
                 @ [CnmemFree (LayerInput (i + 1)), CnmemFree (DLayerInput (i + 1))]
                 @ (if i = 0 then [CnmemFree (LayerInput i)] else [])
             | FULLY_CONNECTED \<Rightarrow>
                 (if \<not> pre_alloc_fc_derivative net
                  then [AllocDerivatives i, FreeDerivatives i] else [])
                 @ [CnmemFree (LayerInput (i + 1)), CnmemFree (DLayerInput (i + 1))]
                 @ (if i = 0 then [CnmemFree (LayerInput i)] else [])
             | BATCHNORM \<Rightarrow>
                 (if \<not> pre_alloc_batch_norm_derivative net
                  then [AllocDerivatives i, FreeDerivatives i] else [])
                 @ [CnmemFree (LayerInput (i + 1)), CnmemFree (DLayerInput (i + 1))]
                 @ (if i = 0 then [CnmemFree (LayerInput i)] else [])
             | _ \<Rightarrow>
                 [CnmemFree (LayerInput (i + 1)), CnmemFree (DLayerInput (i + 1))]
                 @ (if i = 0 then [CnmemFree (LayerInput i)] else [])),
          net'))"

fun replayBackward :: "NeuralNet \<Rightarrow> nat \<Rightarrow> event list" where
  "replayBackward net 0 = []"
| "replayBackward net (Suc i) =
     (let (evs, net') = replayBackwardLayer net i in evs @ replayBackward net' i)"

definition simulateCNMEMMemory :: "NeuralNet \<Rightarrow> getLossError + event list" where
  "simulateCNMEMMemory net =
     (let net0 = resetPrefetched net in
      case replayForward net0 0 of
        Inl e \<Rightarrow> Inl e
      | Inr forward \<Rightarrow>
          Inr ([CnmemMalloc (LayerInput 0) (input_bytes net 0)] @ forward
               @ [CnmemMalloc (DLayerInput (num_layers net))
                    (batch_size net * num_classes net * data_type_size net)]
               @ replayBackward net0 (num_layers net)))"




subsection \<open>The running byte counter of a sequence of events\<close>





text \<open>The sizes a sequence of pool calls allocates, in order.\<close>

fun mallocSize :: "event \<Rightarrow> nat list" where
  "mallocSize (CnmemMalloc b n) = [n]"
| "mallocSize e = []"

definition mallocSizes :: "event list \<Rightarrow> nat list" where
  "mallocSizes evs = concat (map mallocSize evs)"

text \<open>The sizes the simulation subtracts, in order.\<close>

definition subSizes :: "(Op \<times> int) list \<Rightarrow> int list" where
  "subSizes cs = map snd (filter (\<lambda>c. fst c = SUB) cs)"

text \<open>The field of a convolution layer that holds the workspace size of a direction.\<close>

definition workspaceField :: "LayerParams \<Rightarrow> ConvDirection \<Rightarrow> nat" where
  "workspaceField cur_params direction =
     (case direction of
        FWD \<Rightarrow> fwd_workspace_size cur_params
      | BWD_FILTER \<Rightarrow> bwd_filter_workspace_size cur_params
      | BWD_DATA \<Rightarrow> bwd_data_workspace_size cur_params)"

text \<open>The events of a training step on \<open>fcNet\<close>.\<close>

definition fcTrainingTrace :: "event list" where
  "fcTrainingTrace =
     [CnmemMalloc (LayerInput 0) 32, UpdateSpace SUB 32,
      CnmemMalloc (LayerInput 1) 24, UpdateSpace SUB 24, ForwardCompute 0,
      ThreadFreeLayerInput 0, CnmemMalloc (LayerInput 2) 16,
      UpdateSpace SUB 16, ForwardCompute 1, AssignLayerInput 3 2,
      SoftmaxForward 2, SemWaitOffload 0, ComputeLoss,
      CnmemMalloc (DLayerInput 3) 16, UpdateSpace SUB 16,
      AssignDLayerInput 2 3, BackwardCompute 2,
      CnmemMalloc (LayerInput 0) 32, UpdateSpace SUB 32, PrefetchAsync 0,
      CnmemMalloc (DLayerInput 1) 24, UpdateSpace SUB 24,
      AllocDerivatives 1, UpdateSpace SUB 24, UpdateSpace SUB 8,
      BackwardCompute 1, FreeDerivatives 1, UpdateSpace ADD 24,
      UpdateSpace ADD 8, CnmemFree (LayerInput 2), UpdateSpace ADD 16,
      CnmemFree (DLayerInput 2), UpdateSpace ADD 16, SemWaitPrefetch 0,
      AllocDerivatives 0, UpdateSpace SUB 48, UpdateSpace SUB 12,
      BackwardCompute 0, FreeDerivatives 0, UpdateSpace ADD 48,
      UpdateSpace ADD 12, CnmemFree (LayerInput 1), UpdateSpace ADD 24,
      CnmemFree (DLayerInput 1), UpdateSpace ADD 24,
      CnmemFree (LayerInput 0), UpdateSpace ADD 32]"

section \<open>The loss and the inference count\<close>

text \<open>
  Device arrays of numbers are functions from the index to the value. The kernels
  compute in \<^verbatim>\<open>float\<close> or \<^verbatim>\<open>double\<close>; here the values are real numbers, so rounding
  is not modelled. The labels \<^verbatim>\<open>y[i]\<close> are class indices and are taken as natural
  numbers.
\<close>

text \<open>
  The kernel \<open>inferClass\<close> for row \<open>i\<close>: \<^verbatim>\<open>for (int j = 1; j < num_classes; j++)\<close>
  keeps the largest value seen and its index, replacing them only by a strictly
  larger value.
\<close>

function inferClassLoop ::
  "(nat \<Rightarrow> 'a::linorder) \<Rightarrow> nat \<Rightarrow> nat \<Rightarrow> nat \<Rightarrow> 'a \<Rightarrow> nat \<Rightarrow> nat" where
  "inferClassLoop output i classes j mx index =
     (if j < classes then
        if output (i * classes + j) > mx
        then inferClassLoop output i classes (j + 1) (output (i * classes + j)) j
        else inferClassLoop output i classes (j + 1) mx index
      else index)"
  by pat_completeness auto
termination
  by (relation "measure (\<lambda>(output, i, classes, j, mx, index). classes - j)") auto

declare inferClassLoop.simps [simp del]

definition inferClass :: "(nat \<Rightarrow> 'a::linorder) \<Rightarrow> nat \<Rightarrow> nat \<Rightarrow> nat" where
  "inferClass output i classes = inferClassLoop output i classes 1 (output (i * classes)) 0"

text \<open>
  The counting loop of \<open>compareOutputCorrect\<close>,
  \<^verbatim>\<open>for (int i = 0; i < batch_size; i++) if (h_pred_y[i] == y[i]) ...\<close>: the argument
  is the number of rows already compared.
\<close>

fun countCorrect :: "(nat \<Rightarrow> nat) \<Rightarrow> (nat \<Rightarrow> nat) \<Rightarrow> nat \<Rightarrow> nat" where
  "countCorrect h_pred_y y 0 = 0"
| "countCorrect h_pred_y y (Suc i) =
     (if h_pred_y i = y i then countCorrect h_pred_y y i + 1 else countCorrect h_pred_y y i)"

definition compareOutputCorrect :: "(nat \<Rightarrow> 'a::linorder) \<Rightarrow> (nat \<Rightarrow> nat) \<Rightarrow> nat \<Rightarrow> nat \<Rightarrow> nat" where
  "compareOutputCorrect typecast_O y batch classes =
     countCorrect (\<lambda>i. inferClass typecast_O i classes) y batch"

text \<open>
  The array \<open>compareOutputCorrect\<close> reads is \<^verbatim>\<open>layer_input[num_layers - 1]\<close>, the input
  of the last layer. \<^verbatim>\<open>cudnnSoftmaxForward\<close> is an external primitive; what it
  computes from a row of that array is the softmax of the row, in exact arithmetic:
\<close>

definition softmaxOutput :: "(nat \<Rightarrow> real) \<Rightarrow> nat \<Rightarrow> nat \<Rightarrow> real" where
  "softmaxOutput input classes k =
     exp (input k) / (\<Sum>c < classes. exp (input ((k div classes) * classes + c)))"

text \<open>
  \<open>firstArgmax f classes j\<close>: \<open>j\<close> is the argmax of the \<open>classes\<close> entries of \<open>f\<close>,
  ties broken toward the smallest index.
\<close>

definition firstArgmax :: "(nat \<Rightarrow> 'a::linorder) \<Rightarrow> nat \<Rightarrow> nat \<Rightarrow> bool" where
  "firstArgmax f classes j =
     (j < classes \<and> list_all (\<lambda>k. f k \<le> f j) [0..<classes] \<and> list_all (\<lambda>k. f k < f j) [0..<j])"

text \<open>
  \<open>argmaxMatches f y batch classes\<close>: the number of rows \<open>i\<close> below \<open>batch\<close> of the
  array \<open>f\<close> whose argmax, ties toward the smallest index, is the label \<open>y i\<close>.
\<close>

definition argmaxMatches :: "(nat \<Rightarrow> 'a::linorder) \<Rightarrow> (nat \<Rightarrow> nat) \<Rightarrow> nat \<Rightarrow> nat \<Rightarrow> nat" where
  "argmaxMatches f y batch classes =
     length (filter (\<lambda>i. firstArgmax (\<lambda>k. f (i * classes + k)) classes (y i)) [0..<batch])"

text \<open>
  The kernel \<open>computeSoftmaxLoss\<close> for row \<open>i\<close>, and \<open>computeLoss\<close>: the kernel fills
  \<^verbatim>\<open>loss\<close> when the last layer is a Softmax (otherwise the array keeps what it
  held, \<open>loss0\<close>), and the host sums the entries and divides by the batch size.
\<close>

definition computeSoftmaxLoss :: "(nat \<Rightarrow> real) \<Rightarrow> (nat \<Rightarrow> nat) \<Rightarrow> nat \<Rightarrow> real \<Rightarrow> nat \<Rightarrow> real" where
  "computeSoftmaxLoss output y classes eps i = - ln (output (i * classes + y i) + eps)"

fun totalLoss :: "(nat \<Rightarrow> real) \<Rightarrow> nat \<Rightarrow> real" where
  "totalLoss h_loss 0 = 0"
| "totalLoss h_loss (Suc i) = totalLoss h_loss i + h_loss i"

definition computeLoss ::
  "NeuralNet \<Rightarrow> (nat \<Rightarrow> real) \<Rightarrow> (nat \<Rightarrow> nat) \<Rightarrow> real \<Rightarrow> (nat \<Rightarrow> real) \<Rightarrow> real" where
  "computeLoss net output y softmax_eps loss0 =
     (let loss =
            (if layer_type net ! (num_layers net - 1) = SOFTMAX
             then (\<lambda>i. if i < batch_size net
                        then computeSoftmaxLoss output y (num_classes net) softmax_eps i
                        else loss0 i)
             else loss0)
      in totalLoss loss (batch_size net) / real (batch_size net))"

text \<open>The events an inference call must not contain: offload, prefetch and backward work.\<close>

fun trainingOnly :: "event \<Rightarrow> bool" where
  "trainingOnly (OffloadAsync i) = True"
| "trainingOnly (ThreadFreeLayerInput i) = True"
| "trainingOnly (SemWaitOffload i) = True"
| "trainingOnly (SemWaitPrefetch i) = True"
| "trainingOnly (PrefetchAsync i) = True"
| "trainingOnly (BackwardCompute i) = True"
| "trainingOnly (AssignDLayerInput a b) = True"
| "trainingOnly (AllocDerivatives i) = True"
| "trainingOnly (FreeDerivatives i) = True"
| "trainingOnly (CnmemMalloc (DLayerInput i) n) = True"
| "trainingOnly (CnmemFree (DLayerInput i)) = True"
| "trainingOnly ComputeLoss = True"
| "trainingOnly e = False"

text \<open>
  An input array for two rows of two classes, \<open>(0, 2)\<close> and \<open>(3, 0)\<close>, and the
  events of an inference call on \<open>fcNet\<close>.
\<close>

definition inferenceInput :: "nat \<Rightarrow> real" where
  "inferenceInput k = (if k = 1 then 2 else if k = 2 then 3 else 0)"

definition fcInferenceTrace :: "event list" where
  "fcInferenceTrace =
     [CnmemMalloc (LayerInput 0) 32, UpdateSpace SUB 32,
      CnmemMalloc (LayerInput 1) 24, UpdateSpace SUB 24, ForwardCompute 0,
      CnmemFree (LayerInput 0), UpdateSpace ADD 32,
      CnmemMalloc (LayerInput 2) 16, UpdateSpace SUB 16, ForwardCompute 1,
      CnmemFree (LayerInput 1), UpdateSpace ADD 24, CompareOutputCorrect,
      CnmemFree (LayerInput 2), UpdateSpace ADD 16]"

text \<open>
  The code holds the values in \<^verbatim>\<open>float\<close>. \<open>roundSingle x\<close> is the single-precision
  number nearest to \<open>x\<close>: the multiple of \<open>2^(e - 23)\<close> nearest to \<open>x\<close>, where
  \<open>2^e \<le> |x| < 2^(e + 1)\<close> (a tie is rounded upward here and to even by the format;
  overflow and underflow are left out). \<open>softmaxSingle\<close> is the softmax of a row
  computed in single precision, every exponential, sum and quotient rounded.
\<close>

definition roundSingle :: "real \<Rightarrow> real" where
  "roundSingle x =
     (if x = 0 then 0
      else let e = \<lfloor>log 2 \<bar>x\<bar>\<rfloor>
           in of_int (round (x / 2 powr (of_int e - 23))) * 2 powr (of_int e - 23))"

definition softmaxSingle :: "(nat \<Rightarrow> real) \<Rightarrow> nat \<Rightarrow> nat \<Rightarrow> real" where
  "softmaxSingle input classes k =
     (let row = (k div classes) * classes;
          total = foldl (\<lambda>s c. roundSingle (s + roundSingle (exp (input (row + c))))) 0
                    [0..<classes]
      in roundSingle (roundSingle (exp (input k)) / total))"

text \<open>
  One row of two classes whose entries, \<open>0\<close> and \<open>2^-60\<close>, are single-precision
  numbers, with the label \<open>0\<close>.
\<close>

definition smallLogit :: real where
  "smallLogit = 1 / 2 ^ 60"

definition tieInput :: "nat \<Rightarrow> real" where
  "tieInput k = (if k = 1 then smallLogit else 0)"

definition tieLabels :: "nat \<Rightarrow> nat" where
  "tieLabels i = 0"

subsection \<open>The two passes of a training step\<close>

text \<open>
  \<open>ComputeLoss\<close> separates the passes of a training step: the forward pass is what
  precedes it, the backward pass what follows. \<open>allocationsOf b evs\<close> counts the
  allocations into the pointer \<open>b\<close>.
\<close>

definition forwardPass :: "event list \<Rightarrow> event list" where
  "forwardPass evs = takeWhile (\<lambda>e. e \<noteq> ComputeLoss) evs"

definition backwardPass :: "event list \<Rightarrow> event list" where
  "backwardPass evs = dropWhile (\<lambda>e. e \<noteq> ComputeLoss) evs"

definition allocationsOf :: "buffer \<Rightarrow> event list \<Rightarrow> nat" where
  "allocationsOf b evs =
     length (filter (\<lambda>e. case e of CnmemMalloc b' n \<Rightarrow> b' = b | _ \<Rightarrow> False) evs)"

text \<open>
  Two conditions on the planner state used in the proofs about the backward loop:
  only layers that are neither Activation nor Softmax are marked for offload; and,
  at the start of the backward step of layer \<open>k - 1\<close>, the nearest such layer
  below \<open>k\<close>, when marked for offload, has been prefetched already.
\<close>

definition offloadsNonTrailing :: "NeuralNet \<Rightarrow> bool" where
  "offloadsNonTrailing net =
     (\<forall>j<num_layers net. to_offload net ! j \<longrightarrow> \<not> trailing (layer_type net ! j))"

definition nearestPrefetched :: "NeuralNet \<Rightarrow> nat \<Rightarrow> bool" where
  "nearestPrefetched net k =
     (\<forall>m<k. \<not> trailing (layer_type net ! m) \<and>
             (\<forall>j. m < j \<and> j < k \<longrightarrow> trailing (layer_type net ! j)) \<and>
             to_offload net ! m \<longrightarrow> prefetched net ! m)"

text \<open>
  A network with a convolution and two offloaded layers, and the events of a
  training step on it.
\<close>

definition convNet :: NeuralNet where
  "convNet =
     \<lparr>layer_type = [CONV, FULLY_CONNECTED, FULLY_CONNECTED, SOFTMAX],
      to_offload = [True, True, False, False],
      prefetched = [False, False, False, False],
      layer_input_size = [8, 6, 5, 4, 4],
      params = [\<lparr>fwd_workspace_size = 40, bwd_filter_workspace_size = 24,
                  bwd_data_workspace_size = 56, kernel_size = 9, C_out = 2,
                  weight_matrix_size = 0, allocation_size = 0\<rparr>,
                \<lparr>fwd_workspace_size = 0, bwd_filter_workspace_size = 0,
                  bwd_data_workspace_size = 0, kernel_size = 0, C_out = 3,
                  weight_matrix_size = 15, allocation_size = 0\<rparr>,
                \<lparr>fwd_workspace_size = 0, bwd_filter_workspace_size = 0,
                  bwd_data_workspace_size = 0, kernel_size = 0, C_out = 2,
                  weight_matrix_size = 10, allocation_size = 0\<rparr>,
                \<lparr>fwd_workspace_size = 0, bwd_filter_workspace_size = 0,
                  bwd_data_workspace_size = 0, kernel_size = 0, C_out = 0,
                  weight_matrix_size = 0, allocation_size = 0\<rparr>],
      data_type_size = 4, batch_size = 2, num_classes = 2,
      pre_alloc_conv_derivative = False, pre_alloc_fc_derivative = False,
      pre_alloc_batch_norm_derivative = True\<rparr>"

definition convTrainingTrace :: "event list" where
  "convTrainingTrace =
     [CnmemMalloc (LayerInput 0) 32, UpdateSpace SUB 32,
      CnmemMalloc (LayerInput 1) 24, UpdateSpace SUB 24,
      CnmemMalloc Workspace 40, ForwardCompute 0, UpdateSpace SUB 40,
      ThreadFreeLayerInput 0, CnmemFree Workspace, UpdateSpace ADD 40,
      OffloadAsync 1, CnmemMalloc (LayerInput 2) 20, UpdateSpace SUB 20,
      ForwardCompute 1, ThreadFreeLayerInput 1,
      CnmemMalloc (LayerInput 3) 16, UpdateSpace SUB 16, ForwardCompute 2,
      AssignLayerInput 4 3, SoftmaxForward 3, SemWaitOffload 0,
      SemWaitOffload 1, ComputeLoss, CnmemMalloc (DLayerInput 4) 16,
      UpdateSpace SUB 16, AssignDLayerInput 3 4, BackwardCompute 3,
      CnmemMalloc (LayerInput 1) 24, UpdateSpace SUB 24, PrefetchAsync 1,
      CnmemMalloc (DLayerInput 2) 20, UpdateSpace SUB 20,
      AllocDerivatives 2, UpdateSpace SUB 40, UpdateSpace SUB 8,
      BackwardCompute 2, FreeDerivatives 2, UpdateSpace ADD 40,
      UpdateSpace ADD 8, CnmemFree (LayerInput 3), UpdateSpace ADD 16,
      CnmemFree (DLayerInput 3), UpdateSpace ADD 16, SemWaitPrefetch 1,
      CnmemMalloc (LayerInput 0) 32, UpdateSpace SUB 32, PrefetchAsync 0,
      CnmemMalloc (DLayerInput 1) 24, UpdateSpace SUB 24,
      AllocDerivatives 1, UpdateSpace SUB 60, UpdateSpace SUB 12,
      BackwardCompute 1, FreeDerivatives 1, UpdateSpace ADD 60,
      UpdateSpace ADD 12, CnmemFree (LayerInput 2), UpdateSpace ADD 20,
      CnmemFree (DLayerInput 2), UpdateSpace ADD 20, SemWaitPrefetch 0,
      AllocDerivatives 0, UpdateSpace SUB 36, UpdateSpace SUB 8,
      CnmemMalloc Workspace 24, BackwardCompute 0, UpdateSpace SUB 24,
      CnmemFree Workspace, UpdateSpace ADD 24, FreeDerivatives 0,
      UpdateSpace ADD 36, UpdateSpace ADD 8, CnmemFree (LayerInput 1),
      UpdateSpace ADD 24, CnmemFree (DLayerInput 1), UpdateSpace ADD 24,
      CnmemFree (LayerInput 0), UpdateSpace ADD 32]"

text \<open>
  For the example networks: the workspace sizes \<open>getWorkspaceSize\<close> reports are the
  fields of the layer, and the pool reports as its total the size it was initialised
  with. \<open>analyticCalls\<close> and \<open>eventsOf\<close> read the sequence out of a result.
\<close>

definition fieldWorkspaces :: "NeuralNet \<Rightarrow> workspaceSizes" where
  "fieldWorkspaces net i bytes direction algo_pref hard =
     int (workspaceField (params net ! i) direction)"


definition analyticCalls :: "analyticOutcome \<Rightarrow> (Op \<times> int) list" where
  "analyticCalls r = (case r of SimDone space max_consume \<Rightarrow> calls space | _ \<Rightarrow> [])"

definition eventsOf :: "getLossError + event list \<Rightarrow> event list" where
  "eventsOf r = (case r of Inr evs \<Rightarrow> evs | Inl e \<Rightarrow> [])"

section \<open>Properties of \<open>setOffload\<close>\<close>

lemma length_setLastNoOffload [simp]: "length (setLastNoOffload lt off k) = length off"
  by (induction k) auto

lemma setLastNoOffload_none:
  "list_all trailing (take k lt) \<Longrightarrow> k \<le> length lt \<Longrightarrow> setLastNoOffload lt off k = off"
proof (induction k)
  case 0
  then show ?case by simp
next
  case (Suc k)
  then have t: "trailing (lt ! k)" and "list_all trailing (take k lt)"
    by (simp_all add: take_Suc_conv_app_nth)
  with Suc have "setLastNoOffload lt off k = off" by simp
  with t show ?case by (auto simp: trailing_def)
qed

lemma setLastNoOffload_found:
  assumes "m < k" "k \<le> length lt" "\<not> trailing (lt ! m)"
    and "\<forall>j. m < j \<and> j < k \<longrightarrow> trailing (lt ! j)"
  shows "setLastNoOffload lt off k = off[m := False]"
  using assms
proof (induction k)
  case 0
  then show ?case by simp
next
  case (Suc k)
  show ?case
  proof (cases "m = k")
    case True
    with Suc.prems show ?thesis by (auto simp: trailing_def)
  next
    case False
    with Suc.prems have mk: "m < k" by simp
    from Suc.prems mk have "trailing (lt ! k)" by simp
    moreover have "setLastNoOffload lt off k = off[m := False]"
      using Suc.IH [OF mk] Suc.prems by simp
    ultimately show ?thesis by (auto simp: trailing_def)
  qed
qed

lemma lastNonTrailing_iff:
  "lastNonTrailing lt i \<longleftrightarrow>
     i < length lt \<and> \<not> trailing (lt ! i) \<and> (\<forall>j. i < j \<and> j < length lt \<longrightarrow> trailing (lt ! j))"
proof -
  have "list_all trailing (drop (Suc i) lt) \<longleftrightarrow>
        (\<forall>j. i < j \<and> j < length lt \<longrightarrow> trailing (lt ! j))"
  proof
    assume a: "list_all trailing (drop (Suc i) lt)"
    show "\<forall>j. i < j \<and> j < length lt \<longrightarrow> trailing (lt ! j)"
    proof (intro allI impI)
      fix j assume j: "i < j \<and> j < length lt"
      then have "lt ! j = drop (Suc i) lt ! (j - Suc i)" by simp
      moreover from j have "j - Suc i < length (drop (Suc i) lt)" by auto
      ultimately show "trailing (lt ! j)"
        using a by (metis list_all_length)
    qed
  next
    assume a: "\<forall>j. i < j \<and> j < length lt \<longrightarrow> trailing (lt ! j)"
    show "list_all trailing (drop (Suc i) lt)"
      unfolding list_all_length
    proof (intro allI impI)
      fix n assume "n < length (drop (Suc i) lt)"
      then have "Suc i + n < length lt" by auto
      then show "trailing (drop (Suc i) lt ! n)" using a by simp
    qed
  qed
  then show ?thesis by (simp add: lastNonTrailing_def)
qed

lemma lastNonTrailing_unique:
  "lastNonTrailing lt i \<Longrightarrow> lastNonTrailing lt j \<Longrightarrow> i = j"
  unfolding lastNonTrailing_iff by (metis nat_neq_iff)

lemma all_trailing_or_last:
  "list_all trailing (take k lt) \<or>
   (\<exists>m<k. \<not> trailing (lt ! m) \<and> (\<forall>j. m < j \<and> j < k \<longrightarrow> trailing (lt ! j)))"
  if "k \<le> length lt"
  using that
proof (induction k)
  case 0
  then show ?case by simp
next
  case (Suc k)
  show ?case
  proof (cases "trailing (lt ! k)")
    case False
    then show ?thesis by (intro disjI2 exI [of _ k]) auto
  next
    case True
    from Suc have "list_all trailing (take k lt) \<or>
      (\<exists>m<k. \<not> trailing (lt ! m) \<and> (\<forall>j. m < j \<and> j < k \<longrightarrow> trailing (lt ! j)))"
      by simp
    then show ?thesis
    proof
      assume "list_all trailing (take k lt)"
      with True Suc.prems show ?thesis by (simp add: take_Suc_conv_app_nth)
    next
      assume "\<exists>m<k. \<not> trailing (lt ! m) \<and> (\<forall>j. m < j \<and> j < k \<longrightarrow> trailing (lt ! j))"
      then obtain m where m: "m < k" "\<not> trailing (lt ! m)"
        "\<forall>j. m < j \<and> j < k \<longrightarrow> trailing (lt ! j)" by blast
      have "\<forall>j. m < j \<and> j < Suc k \<longrightarrow> trailing (lt ! j)"
        using m(3) True by (auto simp: less_Suc_eq)
      with m(1,2) show ?thesis by (intro disjI2 exI [of _ m]) auto
    qed
  qed
qed

lemma setLastNoOffload_nth:
  assumes "length off = length lt" "i < length lt"
  shows "setLastNoOffload lt off (length lt) ! i = (off ! i \<and> \<not> lastNonTrailing lt i)"
proof -
  from all_trailing_or_last [of "length lt" lt]
  consider (none) "list_all trailing lt"
    | (some) m where "m < length lt" "\<not> trailing (lt ! m)"
        "\<forall>j. m < j \<and> j < length lt \<longrightarrow> trailing (lt ! j)"
    by auto
  then show ?thesis
  proof cases
    case none
    then have "setLastNoOffload lt off (length lt) = off"
      using setLastNoOffload_none [of "length lt" lt off] by simp
    moreover from none assms have "\<not> lastNonTrailing lt i"
      by (simp add: lastNonTrailing_iff list_all_length)
    ultimately show ?thesis by simp
  next
    case some
    then have eq: "setLastNoOffload lt off (length lt) = off[m := False]"
      using setLastNoOffload_found [of m "length lt" lt off] by simp
    from some have lm: "lastNonTrailing lt m" by (simp add: lastNonTrailing_iff)
    show ?thesis
    proof (cases "i = m")
      case True
      with eq lm assms show ?thesis by simp
    next
      case False
      with lm have "\<not> lastNonTrailing lt i" using lastNonTrailing_unique by blast
      with eq False show ?thesis by simp
    qed
  qed
qed


lemma setOffload_length: "length (to_offload (setOffload t net)) = num_layers net"
  by (cases t) (simp_all add: setOffload_def num_layers_def)

lemma setOffload_ALL_nth:
  "i < num_layers net \<Longrightarrow>
   to_offload (setOffload OFFLOAD_ALL net) ! i =
     (\<not> trailing (layer_type net ! i) \<and> \<not> lastNonTrailing (layer_type net) i)"
  by (simp add: setOffload_def num_layers_def setLastNoOffload_nth trailing_def)

lemma setOffload_CONV_nth:
  "i < num_layers net \<Longrightarrow>
   to_offload (setOffload OFFLOAD_CONV net) ! i =
     (layer_type net ! i = CONV \<and> \<not> lastNonTrailing (layer_type net) i)"
  by (simp add: setOffload_def num_layers_def setLastNoOffload_nth)

lemma setOffload_NONE_nth:
  "i < num_layers net \<Longrightarrow> to_offload (setOffload OFFLOAD_NONE net) ! i = False"
  by (simp add: setOffload_def num_layers_def)

lemma setOffload_never_trailing:
  "i < num_layers net \<Longrightarrow> trailing (layer_type net ! i) \<Longrightarrow>
   \<not> to_offload (setOffload t net) ! i"
  by (cases t)
    (auto simp: setOffload_ALL_nth setOffload_CONV_nth setOffload_NONE_nth trailing_def)

lemma setOffload_never_last:
  "i < num_layers net \<Longrightarrow> lastNonTrailing (layer_type net) i \<Longrightarrow>
   \<not> to_offload (setOffload t net) ! i"
  by (cases t) (auto simp: setOffload_ALL_nth setOffload_CONV_nth setOffload_NONE_nth)

text \<open>
  Claim C4. For every layer index \<open>i\<close> of the network: under the "all" policy layer
  \<open>i\<close> is marked for offload exactly when it is neither Activation nor Softmax and
  is not the last such layer; under the "conv-only" policy exactly when it is a
  Convolution and is not the last layer that is neither Activation nor Softmax; and
  under every policy an Activation or Softmax layer is unmarked and the last layer
  that is neither is unmarked.
\<close>

theorem setOffload_marks:
  assumes "i < num_layers net"
  shows "(to_offload (setOffload OFFLOAD_ALL net) ! i \<longleftrightarrow>
            \<not> trailing (layer_type net ! i) \<and> \<not> lastNonTrailing (layer_type net) i) \<and>
         (to_offload (setOffload OFFLOAD_CONV net) ! i \<longleftrightarrow>
            layer_type net ! i = CONV \<and> \<not> lastNonTrailing (layer_type net) i) \<and>
         (\<forall>t. trailing (layer_type net ! i) \<longrightarrow> \<not> to_offload (setOffload t net) ! i) \<and>
         (\<forall>t. lastNonTrailing (layer_type net) i \<longrightarrow> \<not> to_offload (setOffload t net) ! i) \<and>
         (\<forall>t. length (to_offload (setOffload t net)) = num_layers net)"
  using assms setOffload_ALL_nth [of i net] setOffload_CONV_nth [of i net]
    setOffload_never_trailing [of i net] setOffload_never_last [of i net]
    setOffload_length [of _ net]
  by blast

lemma offloadNet_last: "lastNonTrailing (layer_type offloadNet) 2"
  by (simp add: offloadNet_def lastNonTrailing_def trailing_def eval_nat_numeral)

theorem setOffload_marks_witness:
  "(2::nat) < num_layers offloadNet \<and>
   layer_type offloadNet ! 2 = CONV \<and>
   to_offload (setOffload OFFLOAD_ALL offloadNet) ! 2 = False \<and>
   to_offload (setOffload OFFLOAD_CONV offloadNet) ! 2 = False \<and>
   to_offload (setOffload OFFLOAD_ALL offloadNet) = [True, True, False, False, False] \<and>
   to_offload (setOffload OFFLOAD_CONV offloadNet) = [True, False, False, False, False]"
proof -
  have h: "(2::nat) < num_layers offloadNet"
    by (simp add: num_layers_def offloadNet_def)
  have "to_offload (setOffload OFFLOAD_ALL offloadNet) = [True, True, False, False, False]"
    by (simp add: setOffload_def offloadNet_def num_layers_def eval_nat_numeral)
  moreover
  have "to_offload (setOffload OFFLOAD_CONV offloadNet) = [True, False, False, False, False]"
    by (simp add: setOffload_def offloadNet_def num_layers_def eval_nat_numeral)
  moreover have "layer_type offloadNet ! 2 = CONV"
    by (simp add: offloadNet_def)
  ultimately show ?thesis
    using h setOffload_marks [OF h] offloadNet_last by simp
qed

section \<open>Properties of \<open>findPrefetchLayer\<close>\<close>

lemma findPrefetchLoop_hit:
  assumes "j < k" "off ! j" "\<not> pf ! j"
    and "\<forall>m. j < m \<and> m < k \<longrightarrow> \<not> (off ! m \<and> \<not> pf ! m) \<and> lt ! m \<noteq> CONV"
  shows "findPrefetchLoop lt off pf k = (int j, pf[j := True])"
  using assms
proof (induction k)
  case 0
  then show ?case by simp
next
  case (Suc k)
  show ?case
  proof (cases "j = k")
    case True
    with Suc.prems show ?thesis by simp
  next
    case False
    with Suc.prems have jk: "j < k" by simp
    with Suc.prems have "\<not> (off ! k \<and> \<not> pf ! k)" "lt ! k \<noteq> CONV" by auto
    moreover have "findPrefetchLoop lt off pf k = (int j, pf[j := True])"
      using Suc.IH [OF jk] Suc.prems by simp
    ultimately show ?thesis by auto
  qed
qed

lemma findPrefetchLoop_conv:
  assumes "c < k" "lt ! c = CONV"
    and "\<forall>m. c \<le> m \<and> m < k \<longrightarrow> \<not> (off ! m \<and> \<not> pf ! m)"
  shows "findPrefetchLoop lt off pf k = (- 1, pf)"
  using assms
proof (induction k)
  case 0
  then show ?case by simp
next
  case (Suc k)
  then have nk: "\<not> (off ! k \<and> \<not> pf ! k)" by auto
  show ?case
  proof (cases "lt ! k = CONV")
    case True
    with nk show ?thesis by auto
  next
    case False
    with Suc.prems have ck: "c < k" by (cases "c = k") auto
    have "findPrefetchLoop lt off pf k = (- 1, pf)"
      using Suc.IH [OF ck] Suc.prems by simp
    with nk False show ?thesis by auto
  qed
qed

lemma findPrefetchLoop_none:
  assumes "\<forall>m. m < k \<longrightarrow> \<not> (off ! m \<and> \<not> pf ! m)"
  shows "findPrefetchLoop lt off pf k = (- 1, pf)"
  using assms by (induction k) auto

lemma pending_finite [simp]: "finite (pending net i)"
  by (simp add: pending_def)

lemma pending_Max:
  assumes "pending net i \<noteq> {}"
  shows "Max (pending net i) < i" "to_offload net ! Max (pending net i)"
    "\<not> prefetched net ! Max (pending net i)"
    "\<And>m. Max (pending net i) < m \<Longrightarrow> m < i \<Longrightarrow> \<not> (to_offload net ! m \<and> \<not> prefetched net ! m)"
proof -
  have "Max (pending net i) \<in> pending net i"
    using assms by (intro Max_in) simp_all
  then show "Max (pending net i) < i" "to_offload net ! Max (pending net i)"
    "\<not> prefetched net ! Max (pending net i)"
    by (simp_all add: pending_def)
next
  fix m assume "Max (pending net i) < m" "m < i"
  show "\<not> (to_offload net ! m \<and> \<not> prefetched net ! m)"
  proof
    assume "to_offload net ! m \<and> \<not> prefetched net ! m"
    with \<open>m < i\<close> have "m \<in> pending net i" by (simp add: pending_def)
    then have "m \<le> Max (pending net i)" by (intro Max_ge) simp_all
    with \<open>Max (pending net i) < m\<close> show False by simp
  qed
qed

lemma findPrefetchLayer_result:
  "findPrefetchLayer net i =
     (if pending net i \<noteq> {} \<and>
         (\<forall>k. Max (pending net i) < k \<and> k < i \<longrightarrow> layer_type net ! k \<noteq> CONV)
      then (int (Max (pending net i)), net\<lparr>prefetched := (prefetched net)[Max (pending net i) := True]\<rparr>)
      else (- 1, net\<lparr>prefetched := prefetched net\<rparr>))"
proof (cases "pending net i = {}")
  case True
  then have "\<forall>m. m < i \<longrightarrow> \<not> (to_offload net ! m \<and> \<not> prefetched net ! m)"
    by (auto simp: pending_def)
  then have "findPrefetchLoop (layer_type net) (to_offload net) (prefetched net) i
      = (- 1, prefetched net)"
    by (rule findPrefetchLoop_none)
  with True show ?thesis by (simp add: findPrefetchLayer_def)
next
  case False
  note M = pending_Max [OF False]
  show ?thesis
  proof (cases "\<forall>k. Max (pending net i) < k \<and> k < i \<longrightarrow> layer_type net ! k \<noteq> CONV")
    case True
    have "findPrefetchLoop (layer_type net) (to_offload net) (prefetched net) i
      = (int (Max (pending net i)), (prefetched net)[Max (pending net i) := True])"
      using M True by (intro findPrefetchLoop_hit) auto
    with True False show ?thesis by (simp add: findPrefetchLayer_def)
  next
    case nc: False
    then obtain c where c: "Max (pending net i) < c" "c < i" "layer_type net ! c = CONV"
      by blast
    have "findPrefetchLoop (layer_type net) (to_offload net) (prefetched net) i
      = (- 1, prefetched net)"
      using c M(4) by (intro findPrefetchLoop_conv [of c]) auto
    with nc False show ?thesis by (simp add: findPrefetchLayer_def)
  qed
qed

text \<open>
  Claim C5. For a backward layer index \<open>i\<close> within the network,
  \<open>findPrefetchLayer\<close> returns the largest \<open>j < i\<close> that is marked for offload and not
  yet prefetched, provided such a \<open>j\<close> exists and no Convolution layer lies strictly
  between \<open>j\<close> and \<open>i\<close>; in every other case (a Convolution is met first, or no such
  \<open>j\<close> exists) it returns \<open>-1\<close>.
\<close>

theorem findPrefetchLayer_returns:
  assumes "i \<le> num_layers net"
    and "length (to_offload net) = num_layers net"
    and "length (prefetched net) = num_layers net"
  shows "fst (findPrefetchLayer net i) =
     (if pending net i \<noteq> {} \<and>
         (\<forall>k. Max (pending net i) < k \<and> k < i \<longrightarrow> layer_type net ! k \<noteq> CONV)
      then int (Max (pending net i)) else - 1)"
  by (simp only: findPrefetchLayer_result if_distrib [of fst] fst_conv)

theorem findPrefetchLayer_returns_witness:
  "(2::nat) \<le> num_layers (setOffload OFFLOAD_ALL offloadNet) \<and>
   length (to_offload (setOffload OFFLOAD_ALL offloadNet)) =
     num_layers (setOffload OFFLOAD_ALL offloadNet) \<and>
   length (prefetched (setOffload OFFLOAD_ALL offloadNet)) =
     num_layers (setOffload OFFLOAD_ALL offloadNet) \<and>
   fst (findPrefetchLayer (setOffload OFFLOAD_ALL offloadNet) 2) = 1 \<and>
   Max (pending (setOffload OFFLOAD_ALL offloadNet) 2) = 1"
proof -
  let ?N = "setOffload OFFLOAD_ALL offloadNet"
  have h: "(2::nat) \<le> num_layers ?N" "length (to_offload ?N) = num_layers ?N"
    "length (prefetched ?N) = num_layers ?N"
    by (simp_all add: setOffload_def offloadNet_def num_layers_def eval_nat_numeral)
  have e: "fst (findPrefetchLayer ?N 2) = 1"
    by (simp add: findPrefetchLayer_def setOffload_def offloadNet_def num_layers_def
        eval_nat_numeral)
  from findPrefetchLayer_returns [OF h] e
  have "int (Max (pending ?N 2)) = 1"
    by (simp split: if_splits)
  with h e show ?thesis by simp
qed


section \<open>Properties of the suballocator\<close>

lemma lockedMallocLoop_oom:
  "lockedMallocLoop (replicate k CNMEM_STATUS_OUT_OF_MEMORY @ rest) ops =
   lockedMallocLoop rest
     (ops @ concat (replicate k [PoolMalloc CNMEM_STATUS_OUT_OF_MEMORY, CondWait]))"
  by (induction k arbitrary: ops) simp_all

lemma lockedMallocLoop_other:
  "status \<noteq> CNMEM_STATUS_SUCCESS \<Longrightarrow> status \<noteq> CNMEM_STATUS_OUT_OF_MEMORY \<Longrightarrow>
   lockedMallocLoop (replicate k status @ rest) ops =
   lockedMallocLoop rest (ops @ replicate k (PoolMalloc status))"
proof (induction k arbitrary: ops)
  case 0
  then show ?case by simp
next
  case (Suc k)
  then show ?case by (simp add: replicate_app_Cons_same)
qed

lemma lockedMallocLoop_not_Fatal: "lockedMallocLoop answers ops \<noteq> Fatal ops'"
  by (induction answers arbitrary: ops) auto

text \<open>
  The part of claim C2 that the code keeps: while the pool reports out-of-memory,
  \<open>lockedcnmemMalloc\<close> waits on the condition variable and tries again, it returns
  on success, and the pool is only touched between the lock and the unlock of the
  mutex; \<open>lockedcnmemFree\<close> releases, broadcasts and unlocks.
\<close>

lemma lockedcnmemMalloc_waits_on_oom:
  "lockedcnmemMalloc (replicate k CNMEM_STATUS_OUT_OF_MEMORY @ CNMEM_STATUS_SUCCESS # rest) =
   Returned (MutexLock # concat (replicate k [PoolMalloc CNMEM_STATUS_OUT_OF_MEMORY, CondWait])
             @ [PoolMalloc CNMEM_STATUS_SUCCESS, MutexUnlock])"
  by (simp add: lockedcnmemMalloc_def lockedMallocLoop_oom)

lemma lockedcnmemFree_success:
  "lockedcnmemFree CNMEM_STATUS_SUCCESS =
   Returned [MutexLock, PoolFree CNMEM_STATUS_SUCCESS, CondBroadcast, MutexUnlock]"
  by (simp add: lockedcnmemFree_def)

text \<open>
  Claim C2, where the code departs from it. The claim says that the allocation fails
  with a Fatal error exactly when the pool reports an error other than
  out-of-memory. In the code no status of the pool makes \<open>lockedcnmemMalloc\<close>
  fatal: when the pool answers \<^verbatim>\<open>CNMEM_STATUS_INVALID_ARGUMENT\<close> (or any other
  error that is not out-of-memory) \<open>n\<close> times, the call has tried \<open>n\<close> times,
  without waiting and without releasing the mutex, and is still in its loop.
\<close>

theorem lockedcnmemMalloc_error_status_spins:
  "lockedcnmemMalloc (replicate n CNMEM_STATUS_INVALID_ARGUMENT) =
     InLoop (MutexLock # replicate n (PoolMalloc CNMEM_STATUS_INVALID_ARGUMENT)) \<and>
   (\<forall>answers ops. lockedcnmemMalloc answers \<noteq> Fatal ops)"
proof -
  have "lockedMallocLoop (replicate n CNMEM_STATUS_INVALID_ARGUMENT @ []) [MutexLock] =
        lockedMallocLoop [] ([MutexLock] @ replicate n (PoolMalloc CNMEM_STATUS_INVALID_ARGUMENT))"
    by (rule lockedMallocLoop_other) simp_all
  then show ?thesis
    by (simp add: lockedcnmemMalloc_def lockedMallocLoop_not_Fatal)
qed

section \<open>Properties of the planning policy\<close>

lemma trainabilityCheck_last: "last laterCandidates = trainabilityCheck"
  by (simp add: laterCandidates_def trainabilityCheck_def)

text \<open>
  Claim C3, as the code has it. Under the dynamic policy the planner first simulates
  (all, memory-optimal, hard) as the trainability check, whatever algorithm
  preference it was configured with: when the check fails the planner ends with
  \<open>OutOfMemory\<close> and tries nothing else, and when it passes it is not selected.
  The planner then tries (none, performance-optimal, hard), (conv-only,
  performance-optimal, hard), (all, performance-optimal, hard), (conv-only,
  performance-optimal, soft), (all, performance-optimal, soft), (conv-only,
  memory-optimal, hard), (all, memory-optimal, hard) in this order and returns with
  the first that confirms; when none of them confirms it leaves through \<^verbatim>\<open>exit(0)\<close>,
  which a simulation that answers the same on the same candidate never reaches, the
  last candidate being the trainability check again.
\<close>

theorem vDNNOptimizeDyn_order:
  "vDNNOptimize simulate vDNN_DYN vdnn_conv_algo net =
     (if \<not> attempt simulate net trainabilityCheck then (OutOfMemory, [trainabilityCheck])
      else case find (attempt simulate net) laterCandidates of
             Some c \<Rightarrow>
               (Planned c,
                trainabilityCheck #
                  takeWhile (\<lambda>c. \<not> attempt simulate net c) laterCandidates @ [c])
           | None \<Rightarrow> (Exit0, trainabilityCheck # laterCandidates)) \<and>
   fst (vDNNOptimize simulate vDNN_DYN vdnn_conv_algo net) \<noteq> Exit0"
  by (simp add: vDNNOptimize_def vDNNOptimizeDyn_def laterCandidates_def
      trainabilityCheck_def Let_def)

text \<open>
  With the memory-optimal preference configured, the policy of the claim is the one
  of the code.
\<close>

lemma choose_plan_spec_memory_optimal:
  "choose_plan_spec simulate PREFER_MEMORY_OPTIMAL net =
   fst (vDNNOptimize simulate vDNN_DYN vdnn_conv_algo net)"
  by (simp add: choose_plan_spec_def vDNNOptimize_def vDNNOptimizeDyn_def laterCandidates_def
      Let_def)

text \<open>
  The claim as stated fails when the planner is configured with the
  performance-optimal preference and only memory-optimal plans are feasible: the
  trainability check of the claim, (all, performance-optimal, hard), fails, so the
  policy of the claim ends with \<open>OutOfMemory\<close>; the check of the code is
  (all, memory-optimal, hard), it passes, and the code returns with
  (conv-only, memory-optimal, hard).
\<close>

theorem vDNNOptimizeDyn_counterexample:
  "fst (vDNNOptimize memoryOptimalOnly vDNN_DYN vDNN_PERFORMANCE_OPTIMAL offloadNet)
     = Planned (OFFLOAD_CONV, PREFER_MEMORY_OPTIMAL, True) \<and>
   choose_plan_spec memoryOptimalOnly PREFER_PERFORMANCE_OPTIMAL offloadNet = OutOfMemory"
  by (simp add: vDNNOptimize_def vDNNOptimizeDyn_def choose_plan_spec_def attempt_def Let_def
      memoryOptimalOnly_def)

section \<open>Properties of the executor\<close>

subsection \<open>The loops of \<open>getLoss\<close>\<close>

lemma getLossForward_list_all:
  assumes "getLossForward net train i = Inr evs"
    and "\<And>i evs j. forwardLayer net train i = Inr (evs, j) \<Longrightarrow> list_all P evs"
  shows "list_all P evs"
  using assms
proof (induction net train i arbitrary: evs rule: getLossForward.induct)
  case (1 net train i)
  show ?case
  proof (cases "\<not> i < num_layers net \<or> (\<not> train \<and> i = num_layers net - 1)")
    case True
    with "1.prems"(1) show ?thesis
      by (subst (asm) getLossForward.simps) (auto split: if_splits)
  next
    case False
    with "1.prems"(1) obtain es j rest where
      fl: "forwardLayer net train i = Inr (es, j)"
      and r: "getLossForward net train j = Inr rest" and e: "evs = es @ rest"
      by (subst (asm) getLossForward.simps) (auto split: if_splits sum.splits prod.splits)
    have "list_all P rest"
      using "1.IH" [of "(es, j)" es j rest] False fl r "1.prems"(2) by auto
    moreover have "list_all P es" by (rule "1.prems"(2) [OF fl])
    ultimately show ?thesis using e by simp
  qed
qed

lemma findPrefetchLayer_net:
  "snd (findPrefetchLayer net i) = net\<lparr>prefetched := prefetched (snd (findPrefetchLayer net i))\<rparr>"
  by (simp add: findPrefetchLayer_def split: prod.splits)

lemma backwardGradient_net:
  "snd (backwardGradient net i) = net\<lparr>prefetched := prefetched (snd (backwardGradient net i))\<rparr>"
  using findPrefetchLayer_net [of net i]
  by (auto simp: backwardGradient_def split: prod.splits)

lemma backwardLayer_net:
  "snd (backwardLayer net i) = net\<lparr>prefetched := prefetched (snd (backwardLayer net i))\<rparr>"
  using backwardGradient_net [of net i]
  by (auto simp: backwardLayer_def Let_def split: prod.splits)

lemma backwardLayer_fields [simp]:
  "layer_type (snd (backwardLayer net i)) = layer_type net"
  "to_offload (snd (backwardLayer net i)) = to_offload net"
  "num_layers (snd (backwardLayer net i)) = num_layers net"
  by (subst backwardLayer_net, simp add: num_layers_def)+


lemma backwardLayer_trailing:
  assumes "0 < i" "trailing (layer_type net ! i)"
  shows "backwardLayer net i =
    ((if to_offload net ! i then [SemWaitPrefetch i] else [])
       @ [AssignDLayerInput i (i + 1), BackwardCompute i], net)"
  using assms
  by (auto simp: backwardLayer_def backwardGradient_def backwardCompute_def trailing_def)

lemma backwardLayer_BackwardCompute:
  "BackwardCompute i \<in> set (fst (backwardLayer net j)) \<Longrightarrow> i = j"
  by (auto simp: backwardLayer_def backwardGradient_def backwardCompute_def
      backwardRelease_def backwardReleaseKind_def Let_def split: prod.splits LayerOp.splits if_splits)

lemma backwardLayer_gradient_malloc:
  "CnmemMalloc (DLayerInput i) n \<in> set (fst (backwardLayer net j)) \<Longrightarrow>
   i = j \<and> \<not> trailing (layer_type net ! j)"
  by (auto simp: backwardLayer_def backwardGradient_def backwardCompute_def
      backwardRelease_def backwardReleaseKind_def Let_def trailing_def split: prod.splits LayerOp.splits if_splits)

lemma forwardLayer_no_backward:
  "forwardLayer net train i = Inr (evs, j) \<Longrightarrow>
   list_all (\<lambda>e. e \<noteq> BackwardCompute k \<and> (\<forall>n. e \<noteq> CnmemMalloc (DLayerInput k) n)) evs"
  by (auto simp: forwardLayer_def Let_def split: LayerOp.splits if_splits)

lemma getLossBackward_takeWhile:
  assumes "i < k" "0 < i" "trailing (layer_type net ! i)"
  shows "\<exists>pre. takeWhile (\<lambda>e. e \<noteq> BackwardCompute i) (getLossBackward net k)
           = pre @ [AssignDLayerInput i (i + 1)]"
  using assms
proof (induction k arbitrary: net)
  case 0
  then show ?case by simp
next
  case (Suc k)
  obtain evs net' where bl: "backwardLayer net k = (evs, net')" by force
  show ?case
  proof (cases "i = k")
    case True
    with Suc.prems bl show ?thesis
      by (auto simp: backwardLayer_trailing)
  next
    case False
    with Suc.prems have ik: "i < k" by simp
    have lt: "layer_type net' = layer_type net"
      using backwardLayer_fields(1) [of net k] bl by simp
    from Suc.IH [OF ik Suc.prems(2), of net'] Suc.prems(3) lt
    obtain pre where pre: "takeWhile (\<lambda>e. e \<noteq> BackwardCompute i) (getLossBackward net' k)
           = pre @ [AssignDLayerInput i (i + 1)]" by auto
    have "\<forall>e\<in>set evs. e \<noteq> BackwardCompute i"
      using backwardLayer_BackwardCompute [of i net k] bl False by auto
    then have "takeWhile (\<lambda>e. e \<noteq> BackwardCompute i) (evs @ getLossBackward net' k)
        = evs @ takeWhile (\<lambda>e. e \<noteq> BackwardCompute i) (getLossBackward net' k)"
      by (simp add: takeWhile_append2)
    with pre bl show ?thesis by simp
  qed
qed

lemma getLossBackward_no_gradient_malloc:
  assumes "trailing (layer_type net ! i)"
  shows "CnmemMalloc (DLayerInput i) n \<notin> set (getLossBackward net k)"
  using assms
proof (induction k arbitrary: net)
  case 0
  then show ?case by simp
next
  case (Suc k)
  obtain evs net' where bl: "backwardLayer net k = (evs, net')" by force
  have lt: "layer_type net' = layer_type net"
    using backwardLayer_fields(1) [of net k] bl by simp
  have "CnmemMalloc (DLayerInput i) n \<notin> set evs"
    using backwardLayer_gradient_malloc [of i n net k] bl Suc.prems by auto
  moreover have "CnmemMalloc (DLayerInput i) n \<notin> set (getLossBackward net' k)"
    using Suc.IH [of net'] Suc.prems lt by simp
  ultimately show ?case using bl by simp
qed

lemma pointersAfter_alias:
  "dlayer_input (pointersAfter (pre @ [AssignDLayerInput i (i + 1)])) i =
   dlayer_input (pointersAfter (pre @ [AssignDLayerInput i (i + 1)])) (i + 1)"
  by (simp add: pointersAfter_def)

lemma getLoss_program:
  assumes "getLoss net train = Inr tr"
  shows "getLossProgram net train = Inr tr" "firstBlocked [] tr = None"
  using assms by (auto simp: getLoss_def split: sum.splits option.splits)

lemma getLoss_train_trace:
  assumes "getLoss net True = Inr tr"
  obtains forward where
    "getLossForward (resetPrefetched net) True 0 = Inr forward"
    "tr = [CnmemMalloc (LayerInput 0) (input_bytes net 0), UpdateSpace SUB (input_bytes net 0)]
          @ forward
          @ map SemWaitOffload (filter (\<lambda>i. to_offload net ! i) [0..<num_layers net])
          @ [ComputeLoss,
             CnmemMalloc (DLayerInput (num_layers net))
               (batch_size net * num_classes net * data_type_size net),
             UpdateSpace SUB (input_bytes net (num_layers net))]
          @ getLossBackward (resetPrefetched net) (num_layers net)"
  using getLoss_program(1) [OF assms]
  by (auto simp: getLossProgram_def Let_def split: sum.splits)


lemma getLoss_fcNet: "getLoss fcNet True = Inr fcTrainingTrace"
  unfolding fcTrainingTrace_def by code_simp

subsection \<open>Gradient aliasing\<close>

text \<open>
  Claim C6, as the code has it. In a training step, for every layer \<open>i\<close> with
  \<open>0 < i\<close> that is itself an Activation or Softmax layer, \<^verbatim>\<open>dlayer_input[i]\<close> equals
  \<^verbatim>\<open>dlayer_input[i + 1]\<close> when the backward computation of layer \<open>i\<close> executes, and
  the step makes no allocation for \<^verbatim>\<open>dlayer_input[i]\<close>.
\<close>

theorem gradient_alias:
  assumes "getLoss net True = Inr tr" "0 < i" "i < num_layers net"
    and "layer_type net ! i = ACTV \<or> layer_type net ! i = SOFTMAX"
  shows "dlayer_input (pointersAtBackward tr i) i = dlayer_input (pointersAtBackward tr i) (i + 1) \<and>
         \<not> allocatesGradient tr i"
proof -
  let ?P = "\<lambda>e. e \<noteq> BackwardCompute i"
  let ?net0 = "resetPrefetched net"
  from assms(1) obtain forward where
    fw: "getLossForward ?net0 True 0 = Inr forward"
    and tr: "tr = [CnmemMalloc (LayerInput 0) (input_bytes net 0), UpdateSpace SUB (input_bytes net 0)]
          @ forward
          @ map SemWaitOffload (filter (\<lambda>i. to_offload net ! i) [0..<num_layers net])
          @ [ComputeLoss,
             CnmemMalloc (DLayerInput (num_layers net))
               (batch_size net * num_classes net * data_type_size net),
             UpdateSpace SUB (input_bytes net (num_layers net))]
          @ getLossBackward ?net0 (num_layers net)"
    by (rule getLoss_train_trace)
  have lt0: "layer_type ?net0 = layer_type net" by (simp add: resetPrefetched_def)
  have tl: "trailing (layer_type ?net0 ! i)" using assms(4) lt0 by (simp add: trailing_def)
  have fwd: "list_all (\<lambda>e. e \<noteq> BackwardCompute i \<and> (\<forall>n. e \<noteq> CnmemMalloc (DLayerInput i) n)) forward"
    using fw by (rule getLossForward_list_all) (rule forwardLayer_no_backward)
  define head where "head = [CnmemMalloc (LayerInput 0) (input_bytes net 0), UpdateSpace SUB (input_bytes net 0)]
          @ forward
          @ map SemWaitOffload (filter (\<lambda>i. to_offload net ! i) [0..<num_layers net])
          @ [ComputeLoss,
             CnmemMalloc (DLayerInput (num_layers net))
               (batch_size net * num_classes net * data_type_size net),
             UpdateSpace SUB (input_bytes net (num_layers net))]"
  have tr': "tr = head @ getLossBackward ?net0 (num_layers net)"
    using tr by (simp add: head_def)
  have head_ok: "\<forall>e\<in>set head. e \<noteq> BackwardCompute i \<and> (\<forall>n. e \<noteq> CnmemMalloc (DLayerInput i) n)"
    using fwd assms(3) by (auto simp: head_def list_all_iff)
  from getLossBackward_takeWhile [of i "num_layers net" ?net0] assms(2,3) tl
  obtain pre where pre: "takeWhile ?P (getLossBackward ?net0 (num_layers net))
      = pre @ [AssignDLayerInput i (i + 1)]" by auto
  have "takeWhile ?P tr = (head @ pre) @ [AssignDLayerInput i (i + 1)]"
    using head_ok pre by (simp add: tr' takeWhile_append2)
  then have same: "dlayer_input (pointersAtBackward tr i) i
      = dlayer_input (pointersAtBackward tr i) (i + 1)"
    unfolding pointersAtBackward_def by (simp only: pointersAfter_alias)
  have "\<And>n. CnmemMalloc (DLayerInput i) n \<notin> set tr"
    using head_ok getLossBackward_no_gradient_malloc [OF tl] by (auto simp: tr')
  then have "\<not> allocatesGradient tr i"
    by (auto simp: allocatesGradient_def list_ex_iff split: event.splits)
  with same show ?thesis by simp
qed



theorem gradient_alias_witness:
  "getLoss fcNet True = Inr fcTrainingTrace \<and> (0::nat) < 2 \<and> 2 < num_layers fcNet \<and>
   layer_type fcNet ! 2 = SOFTMAX \<and>
   dlayer_input (pointersAtBackward fcTrainingTrace 2) 2 = Some 3 \<and>
   dlayer_input (pointersAtBackward fcTrainingTrace 2) (2 + 1) = Some 3 \<and>
   \<not> allocatesGradient fcTrainingTrace 2"
proof -
  have h: "(0::nat) < 2" "2 < num_layers fcNet"
    "layer_type fcNet ! 2 = ACTV \<or> layer_type fcNet ! 2 = SOFTMAX"
    by (simp_all add: fcNet_def num_layers_def)
  have v: "dlayer_input (pointersAtBackward fcTrainingTrace 2) (2 + 1) = Some 3"
    by (simp add: pointersAtBackward_def pointersAfter_def noPointers_def fcTrainingTrace_def)
  have k: "layer_type fcNet ! 2 = SOFTMAX" by (simp add: fcNet_def)
  from gradient_alias [OF getLoss_fcNet h] v h(1,2) k getLoss_fcNet show ?thesis
    by simp
qed

text \<open>
  The claim as stated takes the kind of layer \<open>i + 1\<close>. On \<open>fcNet\<close> layer \<open>2\<close> is the
  Softmax, and while layer \<open>1\<close> executes its backward computation
  \<^verbatim>\<open>dlayer_input[1]\<close> is a buffer of its own, allocated in that step, and not the
  buffer \<^verbatim>\<open>dlayer_input[2]\<close> points to.
\<close>

theorem gradient_alias_counterexample:
  "getLoss fcNet True = Inr fcTrainingTrace \<and> 1 + 1 < num_layers fcNet + 1 \<and>
   layer_type fcNet ! (1 + 1) = SOFTMAX \<and>
   dlayer_input (pointersAtBackward fcTrainingTrace 1) 1
     \<noteq> dlayer_input (pointersAtBackward fcTrainingTrace 1) (1 + 1) \<and>
   allocatesGradient fcTrainingTrace 1"
  by (simp add: getLoss_fcNet)
    (simp add: pointersAtBackward_def pointersAfter_def noPointers_def allocatesGradient_def
      fcNet_def fcTrainingTrace_def num_layers_def)


section \<open>Properties of the inference path and of the loss\<close>

lemma inferClassLoop_inv:
  assumes "index < j" "j \<le> classes" "mx = out (i * classes + index)"
    and "\<forall>k<j. out (i * classes + k) \<le> mx"
    and "\<forall>k<index. out (i * classes + k) < mx"
  shows "firstArgmax (\<lambda>k. out (i * classes + k)) classes
           (inferClassLoop out i classes j mx index)"
  using assms
proof (induction out i classes j mx index rule: inferClassLoop.induct)
  case (1 out i classes j mx index)
  show ?case
  proof (cases "j < classes")
    case False
    with "1.prems" have "j = classes" by simp
    with "1.prems" False show ?thesis
      by (subst inferClassLoop.simps) (auto simp: firstArgmax_def list_all_iff)
  next
    case True
    show ?thesis
    proof (cases "out (i * classes + j) > mx")
      case gt: True
      have "firstArgmax (\<lambda>k. out (i * classes + k)) classes
           (inferClassLoop out i classes (j + 1) (out (i * classes + j)) j)"
      proof (rule "1.IH"(1) [OF True gt])
        show "\<forall>k<j + 1. out (i * classes + k) \<le> out (i * classes + j)"
          using "1.prems"(4) gt by (auto simp: less_Suc_eq intro: less_imp_le order.trans)
        show "\<forall>k<j. out (i * classes + k) < out (i * classes + j)"
          using "1.prems"(4) gt by (auto intro: le_less_trans)
      qed (use True in auto)
      with True gt show ?thesis by (subst inferClassLoop.simps) simp
    next
      case ngt: False
      have "firstArgmax (\<lambda>k. out (i * classes + k)) classes
           (inferClassLoop out i classes (j + 1) mx index)"
      proof (rule "1.IH"(2) [OF True ngt])
        show "\<forall>k<j + 1. out (i * classes + k) \<le> mx"
          using "1.prems"(4) ngt by (auto simp: less_Suc_eq)
      qed (use True "1.prems" in auto)
      with True ngt show ?thesis by (subst inferClassLoop.simps) simp
    qed
  qed
qed

lemma inferClass_firstArgmax:
  "0 < classes \<Longrightarrow> firstArgmax (\<lambda>k. out (i * classes + k)) classes (inferClass out i classes)"
  unfolding inferClass_def
  by (rule inferClassLoop_inv) (auto simp: less_Suc_eq)

lemma firstArgmax_unique:
  "firstArgmax f classes j \<Longrightarrow> firstArgmax f classes k \<Longrightarrow> j = k"
  unfolding firstArgmax_def list_all_iff
  by (metis atLeastLessThan_iff linorder_neqE_nat not_less set_upt zero_le)

lemma countCorrect_filter:
  "countCorrect p y n = length (filter (\<lambda>i. p i = y i) [0..<n])"
  by (induction n) simp_all

lemma argmaxMatches_card:
  "argmaxMatches f y batch classes =
     card {i. i < batch \<and> firstArgmax (\<lambda>k. f (i * classes + k)) classes (y i)}"
proof -
  have "{i. i < batch \<and> firstArgmax (\<lambda>k. f (i * classes + k)) classes (y i)}
      = set (filter (\<lambda>i. firstArgmax (\<lambda>k. f (i * classes + k)) classes (y i)) [0..<batch])"
    by auto
  then show ?thesis
    by (simp add: argmaxMatches_def distinct_card del: set_filter)
qed

text \<open>
  In exact arithmetic the softmax of a row is increasing in the entries of the row, so
  the argmax of the softmax output is the argmax of the input of the Softmax layer.
\<close>

lemma softmax_row_le:
  assumes "0 < classes" "j < classes" "k < classes"
  shows "softmaxOutput input classes (i * classes + k) \<le> softmaxOutput input classes (i * classes + j)
     \<longleftrightarrow> input (i * classes + k) \<le> input (i * classes + j)"
    and "softmaxOutput input classes (i * classes + k) < softmaxOutput input classes (i * classes + j)
     \<longleftrightarrow> input (i * classes + k) < input (i * classes + j)"
proof -
  define Z where "Z = (\<Sum>c < classes. exp (input (i * classes + c)))"
  have "Z > 0" unfolding Z_def using assms(1) by (intro sum_pos) auto
  have d: "(i * classes + m) div classes = i" if "m < classes" for m
    using that by simp
  have s: "softmaxOutput input classes (i * classes + m) = exp (input (i * classes + m)) / Z"
    if "m < classes" for m
    using that by (simp add: softmaxOutput_def Z_def d)
  show "softmaxOutput input classes (i * classes + k) \<le> softmaxOutput input classes (i * classes + j)
     \<longleftrightarrow> input (i * classes + k) \<le> input (i * classes + j)"
    using \<open>Z > 0\<close> assms by (simp add: s divide_le_cancel)
  show "softmaxOutput input classes (i * classes + k) < softmaxOutput input classes (i * classes + j)
     \<longleftrightarrow> input (i * classes + k) < input (i * classes + j)"
    using \<open>Z > 0\<close> assms by (simp add: s divide_less_cancel)
qed

lemma firstArgmax_softmax:
  assumes "0 < classes"
  shows "firstArgmax (\<lambda>k. softmaxOutput input classes (i * classes + k)) classes j
     \<longleftrightarrow> firstArgmax (\<lambda>k. input (i * classes + k)) classes j"
proof (cases "j < classes")
  case False
  then show ?thesis by (simp add: firstArgmax_def)
next
  case True
  then show ?thesis
    unfolding firstArgmax_def list_all_iff
    using softmax_row_le [OF assms True, of _ input i]
    by (auto simp: )
qed


lemma forwardLayer_inference:
  "forwardLayer net False i = Inr (evs, j) \<Longrightarrow>
   list_all (\<lambda>e. \<not> trainingOnly e \<and> (\<forall>l. e \<noteq> SoftmaxForward l)) evs"
  by (auto simp: forwardLayer_def Let_def split: LayerOp.splits if_splits)

lemma getLoss_fcNet_inference: "getLoss fcNet False = Inr fcInferenceTrace"
  unfolding fcInferenceTrace_def by code_simp

text \<open>
  Claim C9, as the code has it. A call of \<open>getLoss\<close> with \<open>train = False\<close> that
  returns has issued no offload copy and has run no backward work (no event of the
  training-only kind), has not run the softmax, and has run \<open>compareOutputCorrect\<close>,
  whose count is the number of rows \<open>i\<close> below the batch size for which \<open>y i\<close> is the
  argmax, ties toward the smallest class index, of the \<open>classes\<close> entries of row \<open>i\<close>
  of the array it reads (\<open>argmaxMatches\<close>), \<^verbatim>\<open>layer_input[num_layers - 1]\<close>: the input
  of the Softmax layer, not its output. The values are of any linearly ordered type.
\<close>

theorem inference_path:
  assumes "getLoss net False = Inr tr" and "0 < classes"
  shows "\<not> list_ex trainingOnly tr \<and> (\<forall>l. SoftmaxForward l \<notin> set tr) \<and>
         CompareOutputCorrect \<in> set tr \<and>
         compareOutputCorrect input y batch classes = argmaxMatches input y batch classes"
proof -
  obtain forward where
    fw: "getLossForward (resetPrefetched net) False 0 = Inr forward"
    and tr: "tr = [CnmemMalloc (LayerInput 0) (input_bytes net 0), UpdateSpace SUB (input_bytes net 0)]
       @ forward @ [CompareOutputCorrect, CnmemFree (LayerInput (num_layers net - 1)),
                    UpdateSpace ADD (input_bytes net (num_layers net - 1))]"
    using getLoss_program(1) [OF assms(1)]
    by (auto simp: getLossProgram_def Let_def split: sum.splits if_splits)
  have "list_all (\<lambda>e. \<not> trainingOnly e \<and> (\<forall>l. e \<noteq> SoftmaxForward l)) forward"
    using fw by (rule getLossForward_list_all) (rule forwardLayer_inference)
  then have a: "\<not> list_ex trainingOnly tr" "\<forall>l. SoftmaxForward l \<notin> set tr"
    "CompareOutputCorrect \<in> set tr"
    by (auto simp: tr list_all_iff list_ex_iff)
  have "inferClass input i classes = y i \<longleftrightarrow>
        firstArgmax (\<lambda>k. input (i * classes + k)) classes (y i)" for i
    using inferClass_firstArgmax [OF assms(2), of input i] firstArgmax_unique
    by auto
  then have "compareOutputCorrect input y batch classes = argmaxMatches input y batch classes"
    by (simp add: compareOutputCorrect_def countCorrect_filter argmaxMatches_def)
  with a show ?thesis by simp
qed

theorem inference_path_witness:
  "getLoss fcNet False = Inr fcInferenceTrace \<and> (0::nat) < 2 \<and>
   \<not> list_ex trainingOnly fcInferenceTrace \<and>
   compareOutputCorrect inferenceInput (\<lambda>i. 1) 2 2 = 1 \<and>
   argmaxMatches inferenceInput (\<lambda>i. 1) 2 2 = 1"
proof -
  have c: "compareOutputCorrect inferenceInput (\<lambda>i. 1) 2 2 = 1"
    by (simp add: compareOutputCorrect_def inferClass_def inferClassLoop.simps
        inferenceInput_def eval_nat_numeral)
  have z: "(0::nat) < 2" by simp
  from inference_path [OF getLoss_fcNet_inference z, of inferenceInput "\<lambda>i. 1" 2] c
  show ?thesis by (simp add: getLoss_fcNet_inference)
qed

text \<open>
  The softmax output of the row \<open>(0, 2^-60)\<close> in single precision is \<open>(1/2, 1/2)\<close>: the
  exponential of \<open>2^-60\<close> rounds to \<open>1\<close>.
\<close>

lemma roundSingle_in_binade:
  assumes "2 powr of_int e \<le> x" "x < 2 powr (of_int e + 1)"
  shows "roundSingle x = of_int (round (x / 2 powr (of_int e - 23))) * 2 powr (of_int e - 23)"
proof -
  have pos: "0 < x" using assms(1) by (smt (verit) powr_gt_zero)
  then have "\<lfloor>log 2 \<bar>x\<bar>\<rfloor> = e"
    using assms by (simp add: floor_log_eq_powr_iff)
  with pos show ?thesis by (simp add: roundSingle_def)
qed

lemma roundSingle_1: "roundSingle 1 = 1"
  using roundSingle_in_binade [of 0 1] by (simp add: powr_minus)

lemma roundSingle_2: "roundSingle 2 = 2"
  using roundSingle_in_binade [of 1 2] by (simp add: powr_minus powr_numeral)

lemma roundSingle_half: "roundSingle (1 / 2) = 1 / 2"
  using roundSingle_in_binade [of "- 1" "1 / 2"] by (simp add: powr_minus powr_numeral)

lemma smallLogit_pos: "0 < smallLogit"
  by (simp add: smallLogit_def)

lemma exp_smallLogit: "1 < exp smallLogit" "exp smallLogit < 1 + 1 / 2 ^ 59"
proof -
  show "1 < exp smallLogit" using smallLogit_pos by simp
  have "exp smallLogit \<le> 1 + smallLogit + smallLogit\<^sup>2"
    by (rule exp_bound) (simp_all add: smallLogit_def)
  also have "\<dots> < 1 + 1 / 2 ^ 59" by (simp add: smallLogit_def power2_eq_square)
  finally show "exp smallLogit < 1 + 1 / 2 ^ 59" .
qed

lemma roundSingle_near_one:
  fixes x :: real
  assumes "1 < x" "x < 1 + 1 / 2 ^ 59"
  shows "roundSingle x = 1"
proof -
  have "roundSingle x = of_int (round (x / 2 powr (of_int 0 - 23))) * 2 powr (of_int 0 - 23)"
    using assms by (intro roundSingle_in_binade) simp_all
  moreover have "round (x / 2 powr (of_int 0 - 23)) = 2 ^ 23"
  proof (rule round_unique)
    show "x / 2 powr (of_int 0 - 23) - 1 / 2 < of_int (2 ^ 23)"
      using assms(2) by (simp add: powr_minus powr_numeral field_simps)
    show "of_int (2 ^ 23) \<le> x / 2 powr (of_int 0 - 23) + 1 / 2"
      using assms(1) by (simp add: powr_minus powr_numeral field_simps)
  qed
  ultimately show ?thesis by (simp add: powr_minus powr_numeral)
qed

lemma roundSingle_exp_smallLogit: "roundSingle (exp smallLogit) = 1"
  using exp_smallLogit by (rule roundSingle_near_one)

lemma softmaxSingle_tie:
  "softmaxSingle tieInput 2 0 = 1 / 2" "softmaxSingle tieInput 2 1 = 1 / 2"
  by (simp_all add: softmaxSingle_def tieInput_def roundSingle_1 roundSingle_2 roundSingle_half
      roundSingle_exp_smallLogit eval_nat_numeral)

text \<open>
  The claim as stated fails on this row with the label \<open>0\<close>: class \<open>0\<close> is the argmax
  of the softmax output, ties toward the smallest index, so the count of the claim is
  \<open>1\<close>; the code compares the entries \<open>0 < 2^-60\<close> of its input, predicts class \<open>1\<close>
  and counts \<open>0\<close>.
\<close>

theorem inference_path_counterexample:
  "tieInput 0 < tieInput 1 \<and>
   softmaxSingle tieInput 2 0 = 1 / 2 \<and> softmaxSingle tieInput 2 1 = 1 / 2 \<and>
   argmaxMatches (softmaxSingle tieInput 2) tieLabels 1 2 = 1 \<and>
   compareOutputCorrect tieInput tieLabels 1 2 = 0"
proof -
  have "firstArgmax (softmaxSingle tieInput 2) 2 (tieLabels 0)"
    using softmaxSingle_tie
    by (simp add: firstArgmax_def tieLabels_def eval_nat_numeral)
  then have "argmaxMatches (softmaxSingle tieInput 2) tieLabels 1 2 = 1"
    by (simp add: argmaxMatches_def)
  moreover have "compareOutputCorrect tieInput tieLabels 1 2 = 0"
    using smallLogit_pos
    by (simp add: compareOutputCorrect_def inferClass_def inferClassLoop.simps
        tieInput_def tieLabels_def eval_nat_numeral)
  moreover have "tieInput 0 < tieInput 1"
    using smallLogit_pos by (simp add: tieInput_def)
  ultimately show ?thesis using softmaxSingle_tie by simp
qed

lemma totalLoss_sum: "totalLoss h n = (\<Sum>i<n. h i)"
  by (induction n) simp_all

text \<open>
  Claim C10. When the last layer is a Softmax and the batch is not empty, the loss
  \<open>computeLoss\<close> returns is the arithmetic mean over the rows \<open>i\<close> of the batch of
  \<open>- ln (out (i * num_classes + y i) + softmax_eps)\<close>, where \<open>out\<close> is the array
  \<^verbatim>\<open>layer_input[num_layers]\<close>, the softmax output of the network.
\<close>

theorem computeLoss_mean:
  assumes "0 < num_layers net" and "layer_type net ! (num_layers net - 1) = SOFTMAX"
    and "0 < batch_size net"
  shows "computeLoss net out y softmax_eps loss0 =
     (\<Sum>i < batch_size net. - ln (out (i * num_classes net + y i) + softmax_eps))
       / real (batch_size net)"
  using assms
  by (simp add: computeLoss_def totalLoss_sum computeSoftmaxLoss_def)

theorem computeLoss_mean_witness:
  "0 < num_layers fcNet \<and> layer_type fcNet ! (num_layers fcNet - 1) = SOFTMAX \<and>
   0 < batch_size fcNet \<and>
   computeLoss fcNet (\<lambda>k. 1 / 2) (\<lambda>i. 0) (1 / 2) (\<lambda>i. 0) = 0"
proof -
  have h: "0 < num_layers fcNet" "layer_type fcNet ! (num_layers fcNet - 1) = SOFTMAX"
    "0 < batch_size fcNet"
    by (simp_all add: fcNet_def num_layers_def)
  from computeLoss_mean [OF h, of "\<lambda>k. 1 / 2" "\<lambda>i. 0" "1 / 2" "\<lambda>i. 0"] h
  show ?thesis by simp
qed


section \<open>Offload and prefetch pairing\<close>

lemma findPrefetchLoop_cases:
  "findPrefetchLoop lt off pf k = (r, pf') \<Longrightarrow>
   (r = - 1 \<and> pf' = pf) \<or> (\<exists>j<k. r = int j \<and> off ! j \<and> \<not> pf ! j \<and> pf' = pf[j := True])"
proof (induction k)
  case 0
  then show ?case by simp
next
  case (Suc k)
  then show ?case by (auto split: if_splits simp: less_Suc_eq)
qed

lemma findPrefetchLayer_cases:
  assumes "findPrefetchLayer net k = (r, net')"
  shows "(r = - 1 \<and> net' = net) \<or>
     (\<exists>j<k. r = int j \<and> to_offload net ! j \<and> \<not> prefetched net ! j \<and>
        net' = net\<lparr>prefetched := (prefetched net)[j := True]\<rparr>)"
proof -
  obtain pf' where l: "findPrefetchLoop (layer_type net) (to_offload net) (prefetched net) k = (r, pf')"
    and n: "net' = net\<lparr>prefetched := pf'\<rparr>"
    using assms by (auto simp: findPrefetchLayer_def split: prod.splits)
  from findPrefetchLoop_cases [OF l] n show ?thesis by auto
qed

lemma findPrefetchLayer_nearest:
  assumes "m < k" "to_offload net ! m" "\<not> prefetched net ! m"
    and "\<forall>j. m < j \<and> j < k \<longrightarrow> \<not> to_offload net ! j \<and> layer_type net ! j \<noteq> CONV"
  shows "findPrefetchLayer net k = (int m, net\<lparr>prefetched := (prefetched net)[m := True]\<rparr>)"
proof -
  have "findPrefetchLoop (layer_type net) (to_offload net) (prefetched net) k
      = (int m, (prefetched net)[m := True])"
    using assms by (intro findPrefetchLoop_hit) auto
  then show ?thesis by (simp add: findPrefetchLayer_def)
qed

lemma allocationsOf_Nil [simp]: "allocationsOf b [] = 0"
  by (simp add: allocationsOf_def)

lemma allocationsOf_Cons [simp]:
  "allocationsOf b (e # es) =
     (case e of CnmemMalloc b' n \<Rightarrow> if b' = b then 1 else 0 | _ \<Rightarrow> 0) + allocationsOf b es"
  by (simp add: allocationsOf_def split: event.splits)

lemma allocationsOf_append [simp]:
  "allocationsOf b (xs @ ys) = allocationsOf b xs + allocationsOf b ys"
  by (simp add: allocationsOf_def)

lemma backwardCompute_counts [simp]:
  "count_list (backwardCompute net i) (PrefetchAsync j) = 0"
  "count_list (backwardCompute net i) (SemWaitPrefetch j) = 0"
  "allocationsOf (LayerInput j) (backwardCompute net i) = 0"
  by (auto simp: backwardCompute_def allocationsOf_def Let_def split: LayerOp.splits)

lemma backwardRelease_counts [simp]:
  "count_list (backwardRelease net i) (PrefetchAsync j) = 0"
  "count_list (backwardRelease net i) (SemWaitPrefetch j) = 0"
  "allocationsOf (LayerInput j) (backwardRelease net i) = 0"
  by (auto simp: backwardRelease_def backwardReleaseKind_def allocationsOf_def Let_def split: LayerOp.splits)

lemma backwardLayer_unfold:
  "backwardLayer net i =
     ((if to_offload net ! i then [SemWaitPrefetch i] else [])
        @ fst (backwardGradient net i) @ backwardCompute net i
        @ (if trailing (layer_type net ! i) then [] else backwardRelease net i),
      snd (backwardGradient net i))"
  by (simp add: backwardLayer_def Let_def trailing_def split: prod.splits)

lemma backwardGradient_skip:
  "i = 0 \<or> trailing (layer_type net ! i) \<Longrightarrow>
   snd (backwardGradient net i) = net \<and>
   count_list (fst (backwardGradient net i)) (PrefetchAsync j) = 0 \<and>
   count_list (fst (backwardGradient net i)) (SemWaitPrefetch j) = 0 \<and>
   allocationsOf (LayerInput j) (fst (backwardGradient net i)) = 0"
  by (auto simp: backwardGradient_def trailing_def allocationsOf_def)

lemma backwardGradient_prefetch:
  assumes "0 < i" "\<not> trailing (layer_type net ! i)" "findPrefetchLayer net i = (r, net')"
  shows "snd (backwardGradient net i) = net'"
    "count_list (fst (backwardGradient net i)) (PrefetchAsync j) = (if r = int j then 1 else 0)"
    "count_list (fst (backwardGradient net i)) (SemWaitPrefetch j) = 0"
    "allocationsOf (LayerInput j) (fst (backwardGradient net i)) = (if r = int j then 1 else 0)"
  using assms findPrefetchLayer_cases [OF assms(3)]
  by (auto simp: backwardGradient_def trailing_def allocationsOf_def)


lemma trailing_not_CONV: "trailing l \<Longrightarrow> l \<noteq> CONV"
  by (auto simp: trailing_def)

lemma backwardLayer_step:
  assumes inv: "nearestPrefetched net (Suc k)" and kn: "Suc k \<le> num_layers net"
    and len: "length (prefetched net) = num_layers net"
    and nt: "offloadsNonTrailing net"
    and bl: "backwardLayer net k = (es, net')"
  shows "nearestPrefetched net' k"
    and "length (prefetched net') = num_layers net"
    and "to_offload net' = to_offload net" and "layer_type net' = layer_type net"
    and "to_offload net ! k \<longrightarrow> prefetched net ! k"
    and "count_list es (PrefetchAsync i) =
          (if i < k \<and> to_offload net ! i \<and> \<not> prefetched net ! i \<and> prefetched net' ! i
           then 1 else 0)"
    and "allocationsOf (LayerInput i) es =
          (if i < k \<and> to_offload net ! i \<and> \<not> prefetched net ! i \<and> prefetched net' ! i
           then 1 else 0)"
    and "i < num_layers net \<longrightarrow> prefetched net ! i \<longrightarrow> prefetched net' ! i"
    and "count_list es (SemWaitPrefetch i) = (if i = k \<and> to_offload net ! k then 1 else 0)"
proof -
  have offk: "to_offload net ! k \<longrightarrow> prefetched net ! k"
  proof
    assume o: "to_offload net ! k"
    with nt kn have "\<not> trailing (layer_type net ! k)" by (auto simp: offloadsNonTrailing_def)
    with inv o show "prefetched net ! k" by (auto simp: nearestPrefetched_def)
  qed
  have es: "es = (if to_offload net ! k then [SemWaitPrefetch k] else [])
        @ fst (backwardGradient net k) @ backwardCompute net k
        @ (if trailing (layer_type net ! k) then [] else backwardRelease net k)"
    and net': "net' = snd (backwardGradient net k)"
    using bl by (simp_all add: backwardLayer_unfold)
  have near: "findPrefetchLayer net k = (int m, net\<lparr>prefetched := (prefetched net)[m := True]\<rparr>)"
    if "m < k" "\<not> trailing (layer_type net ! m)"
      "\<forall>j. m < j \<and> j < k \<longrightarrow> trailing (layer_type net ! j)"
      "to_offload net ! m" "\<not> prefetched net ! m" for m
  proof (rule findPrefetchLayer_nearest)
    show "\<forall>j. m < j \<and> j < k \<longrightarrow> \<not> to_offload net ! j \<and> layer_type net ! j \<noteq> CONV"
      using that(3) nt kn by (auto simp: offloadsNonTrailing_def dest: trailing_not_CONV)
  qed (use that in auto)
  consider (skip) "k = 0 \<or> trailing (layer_type net ! k)"
    | (scan) "0 < k" "\<not> trailing (layer_type net ! k)" by auto
  then have main: "nearestPrefetched net' k \<and> length (prefetched net') = num_layers net \<and>
      to_offload net' = to_offload net \<and> layer_type net' = layer_type net \<and>
      count_list (fst (backwardGradient net k)) (PrefetchAsync i) =
          (if i < k \<and> to_offload net ! i \<and> \<not> prefetched net ! i \<and> prefetched net' ! i
           then 1 else 0) \<and>
      allocationsOf (LayerInput i) (fst (backwardGradient net k)) =
          (if i < k \<and> to_offload net ! i \<and> \<not> prefetched net ! i \<and> prefetched net' ! i
           then 1 else 0) \<and>
      count_list (fst (backwardGradient net k)) (SemWaitPrefetch i) = 0 \<and>
      (i < num_layers net \<longrightarrow> prefetched net ! i \<longrightarrow> prefetched net' ! i)"
  proof cases
    case skip
    from backwardGradient_skip [OF skip] have s: "net' = net"
      "count_list (fst (backwardGradient net k)) (PrefetchAsync i) = 0"
      "count_list (fst (backwardGradient net k)) (SemWaitPrefetch i) = 0"
      "allocationsOf (LayerInput i) (fst (backwardGradient net k)) = 0"
      by (simp_all add: net')
    have "nearestPrefetched net k"
      unfolding nearestPrefetched_def
    proof (intro allI impI)
      fix m assume m: "m < k" and h: "\<not> trailing (layer_type net ! m) \<and>
             (\<forall>j. m < j \<and> j < k \<longrightarrow> trailing (layer_type net ! j)) \<and> to_offload net ! m"
      with skip have "trailing (layer_type net ! k)" by auto
      with h have "\<forall>j. m < j \<and> j < Suc k \<longrightarrow> trailing (layer_type net ! j)"
        by (auto simp: less_Suc_eq)
      with inv m h show "prefetched net ! m" by (auto simp: nearestPrefetched_def)
    qed
    with s len show ?thesis by simp
  next
    case scan
    obtain r net1 where fp: "findPrefetchLayer net k = (r, net1)" by force
    from backwardGradient_prefetch [OF scan fp] have g: "net' = net1"
      "count_list (fst (backwardGradient net k)) (PrefetchAsync i) = (if r = int i then 1 else 0)"
      "count_list (fst (backwardGradient net k)) (SemWaitPrefetch i) = 0"
      "allocationsOf (LayerInput i) (fst (backwardGradient net k)) = (if r = int i then 1 else 0)"
      by (simp_all add: net')
    from findPrefetchLayer_cases [OF fp]
    consider (none) "r = - 1" "net1 = net"
      | (some) j where "j < k" "r = int j" "to_offload net ! j" "\<not> prefetched net ! j"
          "net1 = net\<lparr>prefetched := (prefetched net)[j := True]\<rparr>" by auto
    then show ?thesis
    proof cases
      case none
      have "nearestPrefetched net k"
        unfolding nearestPrefetched_def
      proof (intro allI impI)
        fix m assume m: "m < k" and h: "\<not> trailing (layer_type net ! m) \<and>
             (\<forall>j. m < j \<and> j < k \<longrightarrow> trailing (layer_type net ! j)) \<and> to_offload net ! m"
        show "prefetched net ! m"
        proof (rule ccontr)
          assume "\<not> prefetched net ! m"
          with near [OF m] h fp none show False by auto
        qed
      qed
      with g none len show ?thesis by auto
    next
      case some
      have jl: "j < length (prefetched net)" using some(1) kn len by simp
      have "nearestPrefetched net1 k"
        unfolding nearestPrefetched_def
      proof (intro allI impI)
        fix m assume m: "m < k" and h: "\<not> trailing (layer_type net1 ! m) \<and>
             (\<forall>j. m < j \<and> j < k \<longrightarrow> trailing (layer_type net1 ! j)) \<and> to_offload net1 ! m"
        then have h': "\<not> trailing (layer_type net ! m)"
          "\<forall>j. m < j \<and> j < k \<longrightarrow> trailing (layer_type net ! j)" "to_offload net ! m"
          by (simp_all add: some(5))
        have ml: "m < length (prefetched net)" using m kn len by simp
        show "prefetched net1 ! m"
        proof (cases "prefetched net ! m")
          case True
          with ml show ?thesis by (cases "m = j") (simp_all add: some(5))
        next
          case False
          from near [OF m h' False] fp some(2) have "m = j" by simp
          with ml show ?thesis by (simp add: some(5))
        qed
      qed
      moreover have "prefetched net1 ! i = (if i = j then True else prefetched net ! i)"
        if "i < num_layers net" for i
        using that len by (simp add: some(5) nth_list_update)
      moreover have "i < num_layers net" if "i < k" for i using that kn by simp
      ultimately show ?thesis
        using g some len by (auto simp: some(5))
    qed
  qed
  show "nearestPrefetched net' k" "length (prefetched net') = num_layers net"
    "to_offload net' = to_offload net" "layer_type net' = layer_type net"
    "to_offload net ! k \<longrightarrow> prefetched net ! k"
    "i < num_layers net \<longrightarrow> prefetched net ! i \<longrightarrow> prefetched net' ! i"
    using main offk by simp_all
  show "count_list es (PrefetchAsync i) =
          (if i < k \<and> to_offload net ! i \<and> \<not> prefetched net ! i \<and> prefetched net' ! i
           then 1 else 0)"
    using main by (simp add: es)
  show "allocationsOf (LayerInput i) es =
          (if i < k \<and> to_offload net ! i \<and> \<not> prefetched net ! i \<and> prefetched net' ! i
           then 1 else 0)"
    using main by (simp add: es)
  show "count_list es (SemWaitPrefetch i) = (if i = k \<and> to_offload net ! k then 1 else 0)"
    using main by (auto simp: es)
qed


lemma offloadsNonTrailing_cong:
  "to_offload net' = to_offload net \<Longrightarrow> layer_type net' = layer_type net \<Longrightarrow>
   offloadsNonTrailing net' = offloadsNonTrailing net"
  by (simp add: offloadsNonTrailing_def num_layers_def)

lemma getLossBackward_counts:
  assumes "nearestPrefetched net k" "k \<le> num_layers net"
    "length (prefetched net) = num_layers net" "offloadsNonTrailing net"
  shows "count_list (getLossBackward net k) (PrefetchAsync i) =
           (if i < k \<and> to_offload net ! i \<and> \<not> prefetched net ! i then 1 else 0) \<and>
         allocationsOf (LayerInput i) (getLossBackward net k) =
           (if i < k \<and> to_offload net ! i \<and> \<not> prefetched net ! i then 1 else 0) \<and>
         count_list (getLossBackward net k) (SemWaitPrefetch i) =
           (if i < k \<and> to_offload net ! i then 1 else 0)"
  using assms
proof (induction k arbitrary: net)
  case 0
  then show ?case by simp
next
  case (Suc k)
  obtain es net' where bl: "backwardLayer net k = (es, net')" by force
  note st = backwardLayer_step [OF Suc.prems(1,2,3,4) bl]
  have n': "num_layers net' = num_layers net" using st(4) by (simp add: num_layers_def)
  have ih: "count_list (getLossBackward net' k) (PrefetchAsync i) =
           (if i < k \<and> to_offload net' ! i \<and> \<not> prefetched net' ! i then 1 else 0) \<and>
         allocationsOf (LayerInput i) (getLossBackward net' k) =
           (if i < k \<and> to_offload net' ! i \<and> \<not> prefetched net' ! i then 1 else 0) \<and>
         count_list (getLossBackward net' k) (SemWaitPrefetch i) =
           (if i < k \<and> to_offload net' ! i then 1 else 0)"
  proof (rule Suc.IH)
    show "nearestPrefetched net' k" by (rule st(1))
    show "k \<le> num_layers net'" using Suc.prems(2) n' by simp
    show "length (prefetched net') = num_layers net'" using st(2) n' by simp
    show "offloadsNonTrailing net'"
      using Suc.prems(4) offloadsNonTrailing_cong [OF st(3,4)] by simp
  qed
  have ik: "i < k \<Longrightarrow> i < num_layers net" using Suc.prems(2) by simp
  show ?case
    using ih st(3,5,6,7,8,9) ik bl by (auto simp: less_Suc_eq)
qed

lemma takeWhile_neq_append:
  "x \<notin> set xs \<Longrightarrow>
   takeWhile (\<lambda>e. e \<noteq> x) (xs @ ys) = xs @ takeWhile (\<lambda>e. e \<noteq> x) ys"
  by (rule takeWhile_append2) auto

lemma in_takeWhile_append:
  "x \<in> set (takeWhile P xs) \<Longrightarrow> x \<in> set (takeWhile P (xs @ ys))"
  by (induction xs) (auto split: if_splits)

lemma count_list_0_notin: "count_list xs x = 0 \<Longrightarrow> x \<notin> set xs"
  by (simp add: count_list_0_iff)

lemma count_list_1_in: "count_list xs x = 1 \<Longrightarrow> x \<in> set xs"
  using count_list_0_iff [of xs x] by auto

lemma getLossBackward_prefetch_first:
  assumes "nearestPrefetched net k" "k \<le> num_layers net"
    "length (prefetched net) = num_layers net" "offloadsNonTrailing net"
    and "i < k" "to_offload net ! i" "\<not> prefetched net ! i"
  shows "PrefetchAsync i \<in> set (takeWhile (\<lambda>e. e \<noteq> SemWaitPrefetch i) (getLossBackward net k))"
  using assms
proof (induction k arbitrary: net)
  case 0
  then show ?case by simp
next
  case (Suc k)
  obtain es net' where bl: "backwardLayer net k = (es, net')" by force
  note st = backwardLayer_step [OF Suc.prems(1,2,3,4) bl]
  have n': "num_layers net' = num_layers net" using st(4) by (simp add: num_layers_def)
  from st(5) Suc.prems(6,7) have "i \<noteq> k" by auto
  with Suc.prems(5) have ik: "i < k" by simp
  from st(9) \<open>i \<noteq> k\<close> have "SemWaitPrefetch i \<notin> set es"
    by (intro count_list_0_notin) simp
  then have tw: "takeWhile (\<lambda>e. e \<noteq> SemWaitPrefetch i) (es @ getLossBackward net' k)
      = es @ takeWhile (\<lambda>e. e \<noteq> SemWaitPrefetch i) (getLossBackward net' k)"
    by (rule takeWhile_neq_append)
  show ?case
  proof (cases "prefetched net' ! i")
    case True
    with st(6) ik Suc.prems(6,7) have "PrefetchAsync i \<in> set es"
      by (intro count_list_1_in) simp
    with tw bl show ?thesis by simp
  next
    case False
    have "PrefetchAsync i \<in> set (takeWhile (\<lambda>e. e \<noteq> SemWaitPrefetch i) (getLossBackward net' k))"
    proof (rule Suc.IH)
      show "nearestPrefetched net' k" by (rule st(1))
      show "k \<le> num_layers net'" using Suc.prems(2) n' by simp
      show "length (prefetched net') = num_layers net'" using st(2) n' by simp
      show "offloadsNonTrailing net'"
        using Suc.prems(4) offloadsNonTrailing_cong [OF st(3,4)] by simp
      show "i < k" by (rule ik)
      show "to_offload net' ! i" using st(3) Suc.prems(6) by simp
      show "\<not> prefetched net' ! i" by (rule False)
    qed
    with tw bl show ?thesis by simp
  qed
qed

lemma forwardLayer_train:
  assumes "forwardLayer net True s = Inr (es, j)"
  shows "count_list es (ThreadFreeLayerInput i) = (if i = s \<and> to_offload net ! s then 1 else 0)"
    and "s + 1 < num_layers net"
    and "j = s + 1 \<or> (j = s + 2 \<and> trailing (layer_type net ! (s + 1)))"
    and "0 < s \<and> to_offload net ! s \<longrightarrow> (\<exists>rest. es = OffloadAsync s # rest)"
    and "list_all (\<lambda>e. e \<noteq> ComputeLoss \<and> (\<forall>b. e \<noteq> CnmemFree (LayerInput b))) es"
  using assms
  by (auto simp: forwardLayer_def Let_def trailing_def split: LayerOp.splits if_splits)

lemma getLossForward_step:
  assumes "getLossForward net train s = Inr evs" "s < num_layers net"
    "\<not> (\<not> train \<and> s = num_layers net - 1)"
  obtains es j rest where "forwardLayer net train s = Inr (es, j)"
    "getLossForward net train j = Inr rest" "evs = es @ rest"
  using assms
  by (subst (asm) getLossForward.simps) (auto split: if_splits sum.splits prod.splits)

lemma getLossForward_end:
  "\<not> s < num_layers net \<Longrightarrow> getLossForward net train s = Inr []"
  by (subst getLossForward.simps) simp

lemma getLossForward_thread_count:
  assumes "getLossForward net True s = Inr evs" "offloadsNonTrailing net"
  shows "count_list evs (ThreadFreeLayerInput i) =
           (if s \<le> i \<and> i < num_layers net \<and> to_offload net ! i then 1 else 0)"
  using assms
proof (induction "num_layers net - s" arbitrary: s evs rule: less_induct)
  case less
  show ?case
  proof (cases "s < num_layers net")
    case False
    with less.prems(1) show ?thesis by (simp add: getLossForward_end)
  next
    case True
    from less.prems(1) True obtain es j rest where
      fl: "forwardLayer net True s = Inr (es, j)"
      and r: "getLossForward net True j = Inr rest" and e: "evs = es @ rest"
      by (rule getLossForward_step) simp
    note f = forwardLayer_train [OF fl]
    from f(3) have sj: "s < j" by auto
    have ih: "count_list rest (ThreadFreeLayerInput i) =
           (if j \<le> i \<and> i < num_layers net \<and> to_offload net ! i then 1 else 0)"
      using less.hyps [of j rest] sj True r less.prems(2) by simp
    have skip: "\<not> to_offload net ! (s + 1)" if "j = s + 2"
      using that f(2,3) less.prems(2) by (auto simp: offloadsNonTrailing_def)
    show ?thesis
    proof (cases "i = s + 1 \<and> j = s + 2")
      case True
      with skip ih f(1) e show ?thesis by simp
    next
      case False
      with f(3) have "j \<le> i \<longleftrightarrow> s < i" by auto
      with ih f(1) e True show ?thesis by auto
    qed
  qed
qed

lemma getLossForward_offload_first:
  assumes "getLossForward net True s = Inr evs" "offloadsNonTrailing net"
    and "s \<le> i" "0 < i" "i < num_layers net" "to_offload net ! i"
  shows "OffloadAsync i \<in> set (takeWhile (\<lambda>e. e \<noteq> ThreadFreeLayerInput i) evs)"
  using assms
proof (induction "num_layers net - s" arbitrary: s evs rule: less_induct)
  case less
  have sn: "s < num_layers net" using less.prems(3,5) by simp
  from less.prems(1) sn obtain es j rest where
    fl: "forwardLayer net True s = Inr (es, j)"
    and r: "getLossForward net True j = Inr rest" and e: "evs = es @ rest"
    by (rule getLossForward_step) simp
  note f = forwardLayer_train [OF fl]
  show ?case
  proof (cases "i = s")
    case True
    with f(4) less.prems(4,6) obtain tl where "es = OffloadAsync s # tl" by auto
    with True e show ?thesis by simp
  next
    case False
    with f(1) have "ThreadFreeLayerInput i \<notin> set es"
      by (intro count_list_0_notin) simp
    then have tw: "takeWhile (\<lambda>e. e \<noteq> ThreadFreeLayerInput i) (es @ rest)
        = es @ takeWhile (\<lambda>e. e \<noteq> ThreadFreeLayerInput i) rest"
      by (rule takeWhile_neq_append)
    from f(3) have sj: "s < j" by auto
    have "j \<le> i"
    proof (rule ccontr)
      assume "\<not> j \<le> i"
      with f(3) False less.prems(3) have "i = s + 1" "trailing (layer_type net ! (s + 1))" by auto
      with less.prems(2,5,6) show False by (auto simp: offloadsNonTrailing_def)
    qed
    then have "OffloadAsync i \<in> set (takeWhile (\<lambda>e. e \<noteq> ThreadFreeLayerInput i) rest)"
      using less.hyps [of j rest] sj sn r less.prems(2,4,5,6) by simp
    with tw e show ?thesis by simp
  qed
qed


lemma getLoss_convNet: "getLoss convNet True = Inr convTrainingTrace"
  unfolding convTrainingTrace_def by code_simp

lemma forwardLayer_train_events:
  "forwardLayer net True s = Inr (es, j) \<Longrightarrow>
   list_all (\<lambda>e. e \<noteq> ComputeLoss \<and> (\<forall>b. e \<noteq> CnmemFree (LayerInput b))) es"
  by (rule forwardLayer_train(5))

subsection \<open>Schedules\<close>

lemma needs_simps [simp]:
  "needs (Thread (EventSynchronizeOffload i)) = Some (Main (ThreadFreeLayerInput i))"
  "needs (Thread (LockedFreeLayerInput i)) = Some (Thread (EventSynchronizeOffload i))"
  "needs (Thread (SemPostOffload i)) = Some (Thread (LockedFreeLayerInput i))"
  "needs (Thread (EventSynchronizePrefetch i)) = Some (Main (PrefetchAsync i))"
  "needs (Thread (SemPostPrefetch i)) = Some (Thread (EventSynchronizePrefetch i))"
  by (simp_all add: threadFreeLayerInputFunction_def threadFlagPrefetchDone_def)

declare needs.simps(18) [simp del]

lemma scheduleFrom_append:
  "scheduleFrom ops (xs @ ys) \<longleftrightarrow> scheduleFrom ops xs \<and> scheduleFrom (ops @ xs) ys"
  by (induction xs arbitrary: ops) simp_all

lemma schedule_snoc: "schedule (xs @ [a]) \<longleftrightarrow> schedule xs \<and> enabled xs a"
  by (simp add: schedule_def scheduleFrom_append)

lemma schedule_prefix: "schedule (xs @ ys) \<Longrightarrow> schedule xs"
  by (simp add: schedule_def scheduleFrom_append)

text \<open>In a schedule nothing happens more often than what it needs.\<close>

lemma schedule_count:
  assumes "schedule run" "needs a = Some b"
  shows "count_list run a \<le> count_list run b"
  using assms(1)
proof (induction run rule: rev_induct)
  case Nil
  show ?case by simp
next
  case (snoc x xs)
  then have s: "schedule xs" and e: "enabled xs x" by (simp_all add: schedule_snoc)
  from snoc.IH [OF s] e assms(2) show ?case
    by (cases "x = a") (auto simp: enabled_def)
qed

text \<open>In a schedule what an action needs has happened before the action.\<close>

lemma schedule_before:
  assumes "schedule run" "needs a = Some b" "a \<in> set run"
  shows "b \<in> set (takeWhile (\<lambda>x. x \<noteq> a) run)"
proof -
  from assms(3) obtain ys zs where run: "run = ys @ a # zs" and ys: "a \<notin> set ys"
    by (meson split_list_first)
  then have tw: "takeWhile (\<lambda>x. x \<noteq> a) run = ys"
    by (simp add: takeWhile_neq_append)
  from assms(1) have "schedule (ys @ [a])"
    using schedule_prefix [of "ys @ [a]" zs] by (simp add: run)
  then have "enabled ys a" by (simp add: schedule_snoc)
  with assms(2) have "count_list ys a < count_list ys b" by (simp add: enabled_def)
  then have "count_list ys b \<noteq> 0" by simp
  then have "b \<in> set ys" by (simp add: count_list_0_iff)
  with tw show ?thesis by simp
qed

lemma before_trans:
  "b \<in> set (takeWhile (\<lambda>x. x \<noteq> a) xs) \<Longrightarrow> c \<in> set (takeWhile (\<lambda>x. x \<noteq> b) xs) \<Longrightarrow>
   c \<in> set (takeWhile (\<lambda>x. x \<noteq> a) xs)"
  by (induction xs) (auto split: if_splits)

lemma mainOf_simps [simp]:
  "mainOf [] = []" "mainOf (Main e # run) = e # mainOf run"
  "mainOf (Thread w # run) = mainOf run" "mainOf (xs @ ys) = mainOf xs @ mainOf ys"
  by (simp_all add: mainOf_def)

lemma mainOf_count: "count_list (mainOf run) e = count_list run (Main e)"
proof (induction run)
  case Nil
  show ?case by simp
next
  case (Cons a run)
  then show ?case by (cases a) auto
qed

lemma mainOf_set: "e \<in> set (mainOf run) \<longleftrightarrow> Main e \<in> set run"
  using mainOf_count [of run e] count_list_0_iff [of "mainOf run" e] count_list_0_iff [of run "Main e"]
  by auto

lemma mainOf_before:
  "e \<in> set (takeWhile (\<lambda>x. x \<noteq> c) (mainOf run)) \<Longrightarrow>
   Main e \<in> set (takeWhile (\<lambda>x. x \<noteq> Main c) run)"
proof (induction run)
  case Nil
  then show ?case by simp
next
  case (Cons a run)
  then show ?case by (cases a) (auto split: if_splits)
qed

lemma backwardLayer_no_thread:
  "ThreadFreeLayerInput j \<notin> set (fst (backwardLayer net i))"
  by (auto simp: backwardLayer_def backwardGradient_def backwardCompute_def
      backwardRelease_def backwardReleaseKind_def Let_def split: prod.splits LayerOp.splits if_splits)

lemma getLossBackward_no_thread:
  "ThreadFreeLayerInput j \<notin> set (getLossBackward net k)"
proof (induction k arbitrary: net)
  case 0
  show ?case by simp
next
  case (Suc k)
  from backwardLayer_no_thread [of j net k] Suc [of "snd (backwardLayer net k)"]
  show ?case by (simp add: split_beta)
qed

lemma mainOf_eagerSchedule: "mainOf (eagerSchedule evs) = evs"
  by (induction evs) (simp_all add: eagerSchedule_def mainOf_def comp_def)

lemma eagerSchedule_simps [simp]:
  "eagerSchedule [] = []"
  "eagerSchedule (e # evs) = Main e # map Thread (spawned e) @ eagerSchedule evs"
  "eagerSchedule (xs @ ys) = eagerSchedule xs @ eagerSchedule ys"
  by (simp_all add: eagerSchedule_def)

lemma count_eager_Main: "count_list (eagerSchedule evs) (Main e) = count_list evs e"
proof (induction evs)
  case Nil
  show ?case by simp
next
  case (Cons a evs)
  have "count_list (map Thread ws) (Main e) = 0" for ws
    by (induction ws) auto
  with Cons show ?case by simp
qed

lemma count_eager_Thread:
  "count_list (eagerSchedule evs) (Thread w) = count_list evs (fst (threadOf w))"
proof (induction evs)
  case Nil
  show ?case by simp
next
  case (Cons a evs)
  have "count_list (map Thread (spawned a)) (Thread w) = (if a = fst (threadOf w) then 1 else 0)"
    by (cases a; cases w)
      (auto simp: threadFreeLayerInputFunction_def threadFlagPrefetchDone_def)
  with Cons show ?case by simp
qed

lemma scheduleFrom_spawned:
  "scheduleFrom (eagerSchedule ops @ [Main e]) (map Thread (spawned e))"
  by (cases e)
    (simp_all add: threadFreeLayerInputFunction_def threadFlagPrefetchDone_def enabled_def
      count_eager_Thread count_eager_Main)

lemma enabled_eager_Main:
  "passes ops e \<Longrightarrow> enabled (eagerSchedule ops) (Main e)"
  by (cases e) (simp_all add: passes_def enabled_def count_eager_Main count_eager_Thread)

lemma scheduleFrom_eager:
  "firstBlocked ops evs = None \<Longrightarrow> scheduleFrom (eagerSchedule ops) (eagerSchedule evs)"
proof (induction evs arbitrary: ops)
  case Nil
  show ?case by simp
next
  case (Cons e evs)
  then have p: "passes ops e" and r: "firstBlocked (ops @ [e]) evs = None"
    by (simp_all split: if_splits)
  from Cons.IH [OF r] enabled_eager_Main [OF p] scheduleFrom_spawned [of ops e]
  show ?case by (simp add: scheduleFrom_append)
qed

lemma schedule_eagerSchedule: "firstBlocked [] evs = None \<Longrightarrow> schedule (eagerSchedule evs)"
  using scheduleFrom_eager [of "[]" evs] by (simp add: schedule_def)

lemma firstBlocked_None_iff:
  "firstBlocked ops evs = None \<longleftrightarrow> (\<forall>pre e rest. evs = pre @ e # rest \<longrightarrow> passes (ops @ pre) e)"
proof (induction evs arbitrary: ops)
  case Nil
  show ?case by simp
next
  case (Cons a evs)
  show ?case
  proof
    assume "firstBlocked ops (a # evs) = None"
    then have p: "passes ops a" and r: "firstBlocked (ops @ [a]) evs = None"
      by (simp_all split: if_splits)
    show "\<forall>pre e rest. a # evs = pre @ e # rest \<longrightarrow> passes (ops @ pre) e"
    proof (intro allI impI)
      fix pre e rest assume eq: "a # evs = pre @ e # rest"
      show "passes (ops @ pre) e"
      proof (cases pre)
        case Nil
        with eq p show ?thesis by simp
      next
        case (Cons b pre')
        with eq have "evs = pre' @ e # rest" "b = a" by simp_all
        with r Cons.IH [of "ops @ [a]"] Cons show ?thesis by simp
      qed
    qed
  next
    assume h: "\<forall>pre e rest. a # evs = pre @ e # rest \<longrightarrow> passes (ops @ pre) e"
    from h [rule_format, of "[]" a evs] have p: "passes ops a" by simp
    have "\<forall>pre e rest. evs = pre @ e # rest \<longrightarrow> passes ((ops @ [a]) @ pre) e"
    proof (intro allI impI)
      fix pre e rest assume "evs = pre @ e # rest"
      with h [rule_format, of "a # pre" e rest] show "passes ((ops @ [a]) @ pre) e" by simp
    qed
    with Cons.IH [of "ops @ [a]"] p show "firstBlocked ops (a # evs) = None" by simp
  qed
qed

lemma mainOf_split:
  "mainOf run = xs @ ys \<Longrightarrow> \<exists>r1 r2. run = r1 @ r2 \<and> mainOf r1 = xs \<and> mainOf r2 = ys"
proof (induction run arbitrary: xs)
  case Nil
  then show ?case by simp
next
  case (Cons a run)
  show ?case
  proof (cases a)
    case (Thread w)
    with Cons.prems have "mainOf run = xs @ ys" by simp
    from Cons.IH [OF this] obtain r1 r2 where "run = r1 @ r2" "mainOf r1 = xs" "mainOf r2 = ys"
      by blast
    then have "a # run = (a # r1) @ r2 \<and> mainOf (a # r1) = xs \<and> mainOf r2 = ys"
      using Thread by simp
    then show ?thesis by blast
  next
    case (Main e)
    show ?thesis
    proof (cases xs)
      case Nil
      with Cons.prems have "a # run = [] @ (a # run) \<and> mainOf [] = xs \<and> mainOf (a # run) = ys"
        by simp
      then show ?thesis by blast
    next
      case (Cons x xs')
      with Cons.prems Main have "mainOf run = xs' @ ys" "x = e" by simp_all
      from Cons.IH [OF this(1)] obtain r1 r2 where
        "run = r1 @ r2" "mainOf r1 = xs'" "mainOf r2 = ys" by blast
      then have "a # run = (a # r1) @ r2 \<and> mainOf (a # r1) = xs \<and> mainOf r2 = ys"
        using Main Cons \<open>x = e\<close> by simp
      then show ?thesis by blast
    qed
  qed
qed

lemma schedule_passes:
  assumes "schedule run" "mainOf run = pre @ e # rest"
  shows "passes pre e"
proof -
  from mainOf_split [of run "pre @ [e]" rest] assms(2) obtain r1 r2 where
    run: "run = r1 @ r2" and m: "mainOf r1 = pre @ [e]" by auto
  from assms(1) have s: "schedule r1" unfolding run by (rule schedule_prefix)
  have c: "count_list r1 (Main x) = count_list (pre @ [e]) x" for x
    using mainOf_count [of r1 x] m by simp
  show ?thesis
  proof (cases e)
    case (SemWaitOffload i)
    have "count_list r1 (Main (SemWaitOffload i)) \<le> count_list r1 (Thread (SemPostOffload i))"
      using s by (rule schedule_count) simp
    also have "\<dots> \<le> count_list r1 (Thread (LockedFreeLayerInput i))"
      using s by (rule schedule_count) simp
    also have "\<dots> \<le> count_list r1 (Thread (EventSynchronizeOffload i))"
      using s by (rule schedule_count) simp
    also have "\<dots> \<le> count_list r1 (Main (ThreadFreeLayerInput i))"
      using s by (rule schedule_count) simp
    finally show ?thesis using SemWaitOffload by (simp add: c passes_def)
  next
    case (SemWaitPrefetch i)
    have "count_list r1 (Main (SemWaitPrefetch i)) \<le> count_list r1 (Thread (SemPostPrefetch i))"
      using s by (rule schedule_count) simp
    also have "\<dots> \<le> count_list r1 (Thread (EventSynchronizePrefetch i))"
      using s by (rule schedule_count) simp
    also have "\<dots> \<le> count_list r1 (Main (PrefetchAsync i))"
      using s by (rule schedule_count) simp
    finally show ?thesis using SemWaitPrefetch by (simp add: c passes_def)
  qed (simp_all add: passes_def)
qed

text \<open>
  The program order of a call is the main thread of some schedule exactly when no
  wait of it blocks.
\<close>

lemma firstBlocked_schedule:
  "firstBlocked [] evs = None \<longleftrightarrow> (\<exists>run. schedule run \<and> mainOf run = evs)"
proof
  assume "firstBlocked [] evs = None"
  then have "schedule (eagerSchedule evs)" by (rule schedule_eagerSchedule)
  with mainOf_eagerSchedule show "\<exists>run. schedule run \<and> mainOf run = evs" by blast
next
  assume "\<exists>run. schedule run \<and> mainOf run = evs"
  then obtain run where "schedule run" "mainOf run = evs" by blast
  then show "firstBlocked [] evs = None"
    using schedule_passes [of run] by (simp add: firstBlocked_None_iff)
qed

lemma getLoss_returns_iff:
  "getLoss net train = Inr tr \<longleftrightarrow>
   getLossProgram net train = Inr tr \<and> (\<exists>run. schedule run \<and> mainOf run = tr)"
  by (auto simp: getLoss_def firstBlocked_schedule [symmetric] split: sum.splits option.splits)

subsection \<open>The pairing\<close>

text \<open>
  Claim C8, as the code has it. Take a training step that runs to its end, on a
  network whose offload flags are those \<open>setOffload\<close> sets for some policy, a layer
  \<open>i\<close> marked for offload, and any schedule \<open>run\<close> of the step (the events of the main
  thread interleaved with the operations of the detached threads). In \<open>run\<close> the
  free-worker frees the device activation of layer \<open>i\<close> exactly once, and it does so
  during the forward pass, before the loss is computed: the main thread ends the
  forward pass waiting on the semaphore the worker posts after the free. The main
  thread itself does not free the activation in the forward pass. The worker frees
  after its wait for the offload event of the layer, and for \<open>i > 0\<close> the offload
  copy is issued before that wait; for layer \<open>0\<close> no offload copy is made. In the
  backward pass the activation is allocated again exactly once, as the target of
  exactly one prefetch, and this prefetch is issued before the backward step of
  layer \<open>i\<close> waits on its prefetch semaphore, which it does once.
\<close>

theorem offload_prefetch_pairing:
  assumes "getLoss net True = Inr tr"
    and "to_offload net = to_offload (setOffload policy net)"
    and "i < num_layers net" and "to_offload net ! i"
    and "schedule run" and "mainOf run = tr"
  shows "count_list run (Thread (LockedFreeLayerInput i)) = 1 \<and>
         Thread (LockedFreeLayerInput i) \<in> set (takeWhile (\<lambda>a. a \<noteq> Main ComputeLoss) run) \<and>
         CnmemFree (LayerInput i) \<notin> set (forwardPass tr) \<and>
         Thread (EventSynchronizeOffload i)
           \<in> set (takeWhile (\<lambda>a. a \<noteq> Thread (LockedFreeLayerInput i)) run) \<and>
         (0 < i \<longrightarrow>
            Main (OffloadAsync i)
              \<in> set (takeWhile (\<lambda>a. a \<noteq> Thread (EventSynchronizeOffload i)) run)) \<and>
         allocationsOf (LayerInput i) (backwardPass tr) = 1 \<and>
         count_list (backwardPass tr) (PrefetchAsync i) = 1 \<and>
         count_list (backwardPass tr) (SemWaitPrefetch i) = 1 \<and>
         PrefetchAsync i \<in> set (takeWhile (\<lambda>e. e \<noteq> SemWaitPrefetch i) (backwardPass tr))"
proof -
  let ?net0 = "resetPrefetched net"
  let ?n = "num_layers net"
  let ?free = "Thread (LockedFreeLayerInput i)"
  let ?sync = "Thread (EventSynchronizeOffload i)"
  let ?post = "Thread (SemPostOffload i)"
  from assms(1) obtain forward where
    fw: "getLossForward ?net0 True 0 = Inr forward"
    and tr: "tr = [CnmemMalloc (LayerInput 0) (input_bytes net 0), UpdateSpace SUB (input_bytes net 0)]
          @ forward
          @ map SemWaitOffload (filter (\<lambda>i. to_offload net ! i) [0..<num_layers net])
          @ [ComputeLoss,
             CnmemMalloc (DLayerInput (num_layers net))
               (batch_size net * num_classes net * data_type_size net),
             UpdateSpace SUB (input_bytes net (num_layers net))]
          @ getLossBackward ?net0 (num_layers net)"
    by (rule getLoss_train_trace)
  define head where "head = [CnmemMalloc (LayerInput 0) (input_bytes net 0),
      UpdateSpace SUB (input_bytes net 0)] @ forward
      @ map SemWaitOffload (filter (\<lambda>i. to_offload net ! i) [0..<num_layers net])"
  define rear where "rear = [CnmemMalloc (DLayerInput (num_layers net))
               (batch_size net * num_classes net * data_type_size net),
             UpdateSpace SUB (input_bytes net (num_layers net))]
          @ getLossBackward ?net0 (num_layers net)"
  have tr': "tr = head @ ComputeLoss # rear" by (simp add: tr head_def rear_def)
  have f0: "to_offload ?net0 = to_offload net" "layer_type ?net0 = layer_type net"
    "num_layers ?net0 = ?n" "length (prefetched ?net0) = ?n"
    "\<And>j. j < ?n \<Longrightarrow> \<not> prefetched ?net0 ! j"
    by (simp_all add: resetPrefetched_def num_layers_def)
  have nt: "offloadsNonTrailing ?net0"
    unfolding offloadsNonTrailing_def f0
  proof (intro allI impI)
    fix j assume "j < ?n" "to_offload net ! j"
    with setOffload_never_trailing [of j net policy] assms(2)
    show "\<not> trailing (layer_type net ! j)" by auto
  qed
  have inv: "nearestPrefetched ?net0 ?n"
    unfolding nearestPrefetched_def f0
  proof (intro allI impI)
    fix m assume m: "m < ?n" and h: "\<not> trailing (layer_type net ! m) \<and>
       (\<forall>j. m < j \<and> j < ?n \<longrightarrow> trailing (layer_type net ! j)) \<and> to_offload net ! m"
    then have "lastNonTrailing (layer_type net) m"
      by (simp add: lastNonTrailing_iff num_layers_def)
    with setOffload_never_last [of m net policy] m assms(2) h
    show "prefetched ?net0 ! m" by auto
  qed
  have fwd_ok: "list_all (\<lambda>e. e \<noteq> ComputeLoss \<and> (\<forall>b. e \<noteq> CnmemFree (LayerInput b))) forward"
    using fw by (rule getLossForward_list_all) (rule forwardLayer_train_events)
  then have head_ok: "ComputeLoss \<notin> set head" "CnmemFree (LayerInput i) \<notin> set head"
    by (auto simp: head_def list_all_iff)
  have all_head: "\<forall>x\<in>set head. x \<noteq> ComputeLoss" using head_ok(1) by auto
  have fp: "forwardPass tr = head" and bp: "backwardPass tr = ComputeLoss # rear"
    using all_head
    by (simp_all add: forwardPass_def backwardPass_def tr' takeWhile_neq_append [OF head_ok(1)]
        dropWhile_append3)
  have c1: "count_list forward (ThreadFreeLayerInput i) = 1"
    using getLossForward_thread_count [OF fw nt, of i] assms(3,4) f0 by simp
  have waits: "count_list (map SemWaitOffload xs) (ThreadFreeLayerInput i) = 0" for xs
    by (induction xs) auto
  have t1: "count_list head (ThreadFreeLayerInput i) = 1"
    using c1 waits by (simp add: head_def)
  have "count_list rear (ThreadFreeLayerInput i) = 0"
    using getLossBackward_no_thread [of i ?net0 ?n] by (simp add: rear_def count_list_0_iff)
  with t1 have created: "count_list tr (ThreadFreeLayerInput i) = 1"
    by (simp add: tr')
  have "SemWaitOffload i \<in> set head"
    using assms(3,4) by (simp add: head_def)
  then have wait_fwd: "SemWaitOffload i \<in> set (takeWhile (\<lambda>e. e \<noteq> ComputeLoss) tr)"
    using fp by (simp add: forwardPass_def)
  \<comment> \<open>The worker's free lies between its creation and the barrier of the forward pass.\<close>
  have wait_run: "Main (SemWaitOffload i) \<in> set (takeWhile (\<lambda>a. a \<noteq> Main ComputeLoss) run)"
    using wait_fwd assms(6) by (intro mainOf_before) simp
  then have w_in: "Main (SemWaitOffload i) \<in> set run" by (rule set_takeWhileD [THEN conjunct1])
  have post_wait: "?post \<in> set (takeWhile (\<lambda>x. x \<noteq> Main (SemWaitOffload i)) run)"
    using assms(5) _ w_in by (rule schedule_before) simp
  then have p_in: "?post \<in> set run" by (rule set_takeWhileD [THEN conjunct1])
  have free_post: "?free \<in> set (takeWhile (\<lambda>x. x \<noteq> ?post) run)"
    using assms(5) _ p_in by (rule schedule_before) simp
  then have f_in: "?free \<in> set run" by (rule set_takeWhileD [THEN conjunct1])
  have sync_free: "?sync \<in> set (takeWhile (\<lambda>x. x \<noteq> ?free) run)"
    using assms(5) _ f_in by (rule schedule_before) simp
  then have s_in: "?sync \<in> set run" by (rule set_takeWhileD [THEN conjunct1])
  have create_sync: "Main (ThreadFreeLayerInput i) \<in> set (takeWhile (\<lambda>x. x \<noteq> ?sync) run)"
    using assms(5) _ s_in by (rule schedule_before) simp
  have free_fwd: "?free \<in> set (takeWhile (\<lambda>a. a \<noteq> Main ComputeLoss) run)"
    using wait_run post_wait free_post by (blast intro: before_trans)
  have "count_list run ?free \<le> count_list run ?sync"
    using assms(5) by (rule schedule_count) simp
  also have "\<dots> \<le> count_list run (Main (ThreadFreeLayerInput i))"
    using assms(5) by (rule schedule_count) simp
  also have "\<dots> = 1"
    using created assms(6) mainOf_count [of run "ThreadFreeLayerInput i"] by simp
  finally have "count_list run ?free \<le> 1" .
  moreover have "count_list run ?free \<noteq> 0" using f_in by (simp add: count_list_0_iff)
  ultimately have once: "count_list run ?free = 1" by simp
  have o1: "Main (OffloadAsync i) \<in> set (takeWhile (\<lambda>a. a \<noteq> ?sync) run)" if "0 < i"
  proof -
    have "OffloadAsync i \<in> set (takeWhile (\<lambda>e. e \<noteq> ThreadFreeLayerInput i) forward)"
      using getLossForward_offload_first [OF fw nt, of i] that assms(3,4) f0 by simp
    then have "OffloadAsync i \<in> set (takeWhile (\<lambda>e. e \<noteq> ThreadFreeLayerInput i)
        (forward @ map SemWaitOffload (filter (\<lambda>i. to_offload net ! i) [0..<num_layers net])
           @ ComputeLoss # rear))"
      by (rule in_takeWhile_append)
    then have "OffloadAsync i \<in> set (takeWhile (\<lambda>e. e \<noteq> ThreadFreeLayerInput i) tr)"
      by (simp add: tr' head_def)
    then have "Main (OffloadAsync i)
        \<in> set (takeWhile (\<lambda>x. x \<noteq> Main (ThreadFreeLayerInput i)) run)"
      using assms(6) by (intro mainOf_before) simp
    with create_sync show ?thesis by (blast intro: before_trans)
  qed
  have ni: "\<not> prefetched ?net0 ! i" "to_offload ?net0 ! i" "i < num_layers ?net0"
    using f0 assms(3,4) by simp_all
  have cnt: "count_list (getLossBackward ?net0 ?n) (PrefetchAsync i) = 1"
    "allocationsOf (LayerInput i) (getLossBackward ?net0 ?n) = 1"
    "count_list (getLossBackward ?net0 ?n) (SemWaitPrefetch i) = 1"
    using getLossBackward_counts [of ?net0 ?n i] inv nt f0 ni assms(3) by simp_all
  have first: "PrefetchAsync i \<in>
      set (takeWhile (\<lambda>e. e \<noteq> SemWaitPrefetch i) (getLossBackward ?net0 ?n))"
    using getLossBackward_prefetch_first [of ?net0 ?n i] inv nt f0 ni assms(3) by simp
  have b1: "allocationsOf (LayerInput i) (ComputeLoss # rear) = 1"
    "count_list (ComputeLoss # rear) (PrefetchAsync i) = 1"
    "count_list (ComputeLoss # rear) (SemWaitPrefetch i) = 1"
    "PrefetchAsync i \<in> set (takeWhile (\<lambda>e. e \<noteq> SemWaitPrefetch i) (ComputeLoss # rear))"
    using cnt first by (simp_all add: rear_def)
  show ?thesis
    using once free_fwd head_ok(2) sync_free o1 b1
    by (simp add: fp bp)
qed

theorem offload_prefetch_pairing_witness:
  "getLoss convNet True = Inr convTrainingTrace \<and>
   to_offload convNet = to_offload (setOffload OFFLOAD_ALL convNet) \<and>
   1 < num_layers convNet \<and> to_offload convNet ! 1 \<and>
   schedule (eagerSchedule convTrainingTrace) \<and>
   mainOf (eagerSchedule convTrainingTrace) = convTrainingTrace \<and>
   count_list (eagerSchedule convTrainingTrace) (Thread (LockedFreeLayerInput 1)) = 1 \<and>
   Thread (LockedFreeLayerInput 1)
     \<in> set (takeWhile (\<lambda>a. a \<noteq> Main ComputeLoss) (eagerSchedule convTrainingTrace)) \<and>
   Main (OffloadAsync 1)
     \<in> set (takeWhile (\<lambda>a. a \<noteq> Thread (EventSynchronizeOffload 1))
              (eagerSchedule convTrainingTrace)) \<and>
   allocationsOf (LayerInput 1) (backwardPass convTrainingTrace) = 1 \<and>
   count_list (backwardPass convTrainingTrace) (PrefetchAsync 1) = 1 \<and>
   PrefetchAsync 1
     \<in> set (takeWhile (\<lambda>e. e \<noteq> SemWaitPrefetch 1) (backwardPass convTrainingTrace))"
proof -
  have h: "to_offload convNet = to_offload (setOffload OFFLOAD_ALL convNet)"
    "1 < num_layers convNet" "to_offload convNet ! 1"
    by (simp_all add: convNet_def setOffload_def num_layers_def eval_nat_numeral)
  have s: "schedule (eagerSchedule convTrainingTrace)"
    using getLoss_program(2) [OF getLoss_convNet] by (rule schedule_eagerSchedule)
  note m = mainOf_eagerSchedule [of convTrainingTrace]
  from offload_prefetch_pairing [OF getLoss_convNet h s m] h getLoss_convNet s m
  show ?thesis by simp
qed

text \<open>
  The claim as stated fails for layer \<open>0\<close>: on \<open>fcNet\<close>, whose flags are those of
  the "all" policy, layer \<open>0\<close> is marked for offload and its free-worker is created,
  but the step issues no offload copy of layer \<open>0\<close> (the forward loop copies only
  when \<open>i > 0\<close>, and the prefetch of layer \<open>0\<close> copies from the batch \<^verbatim>\<open>X\<close>).
\<close>

theorem offload_prefetch_pairing_counterexample:
  "to_offload fcNet = to_offload (setOffload OFFLOAD_ALL fcNet) \<and>
   to_offload fcNet ! 0 \<and> getLoss fcNet True = Inr fcTrainingTrace \<and>
   count_list fcTrainingTrace (ThreadFreeLayerInput 0) = 1 \<and>
   OffloadAsync 0 \<notin> set fcTrainingTrace"
proof -
  have "to_offload fcNet = to_offload (setOffload OFFLOAD_ALL fcNet)"
    by (simp add: fcNet_def setOffload_def num_layers_def eval_nat_numeral)
  moreover have "to_offload fcNet ! 0" by (simp add: fcNet_def)
  moreover have "count_list fcTrainingTrace (ThreadFreeLayerInput 0) = 1"
    by (simp add: fcTrainingTrace_def)
  moreover have "OffloadAsync 0 \<notin> set fcTrainingTrace"
    by (simp add: fcTrainingTrace_def)
  ultimately show ?thesis using getLoss_fcNet by simp
qed

section \<open>The planning simulation and the training step\<close>



text \<open>
  The replay against the allocator makes the allocations of the training step, in
  the order of the step.
\<close>

lemma mallocSizes_simps [simp]:
  "mallocSizes [] = []"
  "mallocSizes (e # es) = mallocSize e @ mallocSizes es"
  "mallocSizes (xs @ ys) = mallocSizes xs @ mallocSizes ys"
  by (simp_all add: mallocSizes_def)

lemma replayForwardLayer_mallocs:
  assumes "forwardLayer net True i = Inr (es, j)"
  shows "\<exists>rs. replayForwardLayer net i = Inr (rs, j) \<and> mallocSizes rs = mallocSizes es"
  using assms
  by (auto simp: forwardLayer_def replayForwardLayer_def Let_def
      split: LayerOp.splits if_splits)

lemma replayForward_mallocs:
  "getLossForward net True s = Inr evs \<Longrightarrow>
   \<exists>rs. replayForward net s = Inr rs \<and> mallocSizes rs = mallocSizes evs"
proof (induction net True s arbitrary: evs rule: getLossForward.induct)
  case (1 net i)
  show ?case
  proof (cases "i < num_layers net")
    case False
    with "1.prems" show ?thesis
      by (subst replayForward.simps, subst (asm) getLossForward.simps) auto
  next
    case True
    with "1.prems" obtain es j rest where
      fl: "forwardLayer net True i = Inr (es, j)"
      and r: "getLossForward net True j = Inr rest" and e: "evs = es @ rest"
      by (subst (asm) getLossForward.simps) (auto split: if_splits sum.splits prod.splits)
    from replayForwardLayer_mallocs [OF fl] obtain rs where
      rl: "replayForwardLayer net i = Inr (rs, j)" and m1: "mallocSizes rs = mallocSizes es"
      by blast
    from "1.hyps" [of "(es, j)" es j rest] True fl r obtain rs' where
      rr: "replayForward net j = Inr rs'" and m2: "mallocSizes rs' = mallocSizes rest"
      by auto
    have "replayForward net i = Inr (rs @ rs')"
      using True rl rr by (subst replayForward.simps) simp
    with m1 m2 e show ?thesis by simp
  qed
qed

lemma replayBackwardLayer_mallocs:
  "snd (replayBackwardLayer net i) = snd (backwardLayer net i) \<and>
   mallocSizes (fst (replayBackwardLayer net i)) = mallocSizes (fst (backwardLayer net i))"
  by (auto simp: replayBackwardLayer_def backwardLayer_def backwardGradient_def
      backwardCompute_def backwardRelease_def backwardReleaseKind_def Let_def
      split: prod.splits LayerOp.splits)

lemma replayBackward_mallocs:
  "mallocSizes (replayBackward net k) = mallocSizes (getLossBackward net k)"
proof (induction k arbitrary: net)
  case 0
  show ?case by simp
next
  case (Suc k)
  from replayBackwardLayer_mallocs [of net k] Suc [of "snd (backwardLayer net k)"]
  show ?case by (simp add: split_beta)
qed

lemma mallocSizes_SemWaitOffload [simp]:
  "mallocSizes (map SemWaitOffload is) = []"
  by (induction "is") simp_all

lemma simulateCNMEMMemory_mallocs:
  assumes "getLoss net True = Inr tr"
  shows "\<exists>rp. simulateCNMEMMemory net = Inr rp \<and> mallocSizes rp = mallocSizes tr"
proof -
  from assms obtain forward where
    fw: "getLossForward (resetPrefetched net) True 0 = Inr forward"
    and tr: "tr = [CnmemMalloc (LayerInput 0) (input_bytes net 0), UpdateSpace SUB (input_bytes net 0)]
          @ forward
          @ map SemWaitOffload (filter (\<lambda>i. to_offload net ! i) [0..<num_layers net])
          @ [ComputeLoss,
             CnmemMalloc (DLayerInput (num_layers net))
               (batch_size net * num_classes net * data_type_size net),
             UpdateSpace SUB (input_bytes net (num_layers net))]
          @ getLossBackward (resetPrefetched net) (num_layers net)"
    by (rule getLoss_train_trace)
  from replayForward_mallocs [OF fw] obtain rs where
    rf: "replayForward (resetPrefetched net) 0 = Inr rs"
    and m: "mallocSizes rs = mallocSizes forward" by blast
  show ?thesis
    using rf m replayBackward_mallocs [of "resetPrefetched net" "num_layers net"]
    by (simp add: simulateCNMEMMemory_def Let_def tr)
qed

text \<open>
  An \<^verbatim>\<open>int\<close> does not hold a workspace size of \<open>2^32 + 24\<close> bytes: the backward loops of
  \<open>getLoss\<close> and of the replay allocate \<open>24\<close> bytes for it, and the simulation, which
  keeps the sizes in \<^verbatim>\<open>long\<close>, counts what \<open>getWorkspaceSize\<close> reports.
\<close>

lemma backwardWorkspace_truncates:
  "sizeOfInt (backwardWorkspace
      \<lparr>fwd_workspace_size = 0, bwd_filter_workspace_size = 2 ^ 32 + 24,
       bwd_data_workspace_size = 0, kernel_size = 0, C_out = 0,
       weight_matrix_size = 0, allocation_size = 0\<rparr> 0) = 24"
  by (simp add: backwardWorkspace_def intOfSize_def sizeOfInt_def)

text \<open>
  Claim C7, where the code departs from it. The claim says that the analytic
  simulation performs the allocations of the executor and of the replay in the same
  order. In its backward loop the simulation counts the gradient of layer \<open>i\<close> first
  and then the activation \<open>findPrefetchLayer\<close> chose; \<open>getLoss\<close> and
  \<open>simulateCNMEMMemory\<close> allocate the prefetched activation first and then the
  gradient. On \<open>fcNet\<close> the first six sizes the simulation subtracts are
  \<open>32, 24, 16, 16, 24, 32\<close>, and the six allocations of the step, and of the replay,
  are of \<open>32, 24, 16, 16, 32, 24\<close> bytes.
\<close>

theorem simulation_order_differs:
  "take 6 (subSizes (analyticCalls (simulateAnalytic (fieldWorkspaces fcNet) 1000
      PREFER_PERFORMANCE_OPTIMAL True fcNet))) = [32, 24, 16, 16, 24, 32] \<and>
   getLoss fcNet True = Inr fcTrainingTrace \<and>
   mallocSizes fcTrainingTrace = [32, 24, 16, 16, 32, 24] \<and>
   mallocSizes (eventsOf (simulateCNMEMMemory fcNet)) = [32, 24, 16, 16, 32, 24]"
proof -
  have "take 6 (subSizes (analyticCalls (simulateAnalytic (fieldWorkspaces fcNet) 1000
      PREFER_PERFORMANCE_OPTIMAL True fcNet))) = [32, 24, 16, 16, 24, 32]"
    by code_simp
  moreover have "mallocSizes fcTrainingTrace = [32, 24, 16, 16, 32, 24]"
    by code_simp
  moreover have "mallocSizes (eventsOf (simulateCNMEMMemory fcNet)) = [32, 24, 16, 16, 32, 24]"
    by code_simp
  ultimately show ?thesis using getLoss_fcNet by simp
qed

end
